theory Spec2Isabelle
  imports Complex_Main "HOL-Library.Word"
begin

section \<open>Shared vocabulary\<close>

text \<open>
  A \<open>QByteArray\<close> is a list of bytes.  \<open>QByteArray::append (char)\<close> called with an
  \<open>int\<close> or an enumerator keeps the low eight bits (\<open>word_of_int\<close>).  Reading with
  \<open>at\<close> outside the array trips the container's range assertion; the model returns the
  fault \<open>IndexOutOfRange\<close> there.  The bytes read back are plain \<open>char\<close>, taken as
  signed (\<open>sint\<close>), as on the desktop targets of the driver station.
\<close>

type_synonym byte = "8 word"
type_synonym QByteArray = "byte list"

datatype fault = IndexOutOfRange | NegativeSize

definition at_index :: "'a list \<Rightarrow> int \<Rightarrow> fault + 'a" where
  "at_index xs i = (if 0 \<le> i \<and> i < int (length xs) then Inr (xs ! nat i) else Inl IndexOutOfRange)"

text \<open>C++ integer division and remainder truncate towards zero.\<close>

definition cdiv :: "int \<Rightarrow> int \<Rightarrow> int" where
  "cdiv a b = (if (a < 0) = (b < 0) then \<bar>a\<bar> div \<bar>b\<bar> else - (\<bar>a\<bar> div \<bar>b\<bar>))"

definition crem :: "int \<Rightarrow> int \<Rightarrow> int" where
  "crem a b = a - b * cdiv a b"

text \<open>\<open>QString::number\<close> and \<open>QString::arg\<close> on an \<open>int\<close>: the decimal numeral.\<close>

fun decimal :: "nat \<Rightarrow> string" where
  "decimal n = (if n < 10 then [''0123456789'' ! n]
                else decimal (n div 10) @ [''0123456789'' ! (n mod 10)])"

declare decimal.simps [simp del]

definition QString_number :: "int \<Rightarrow> string" where
  "QString_number i = (if i < 0 then CHR ''-'' # decimal (nat (- i)) else decimal (nat i))"

section \<open>The 2015 protocol (DS_Protocol2015.cpp)\<close>

text \<open>
  The enumerations \<open>DS_ControlMode\<close> and \<open>DS_Alliance\<close> and the protocol constants
  (\<open>SectionHeaders\<close>, \<open>OperationModes\<close>, \<open>Alliances\<close>, \<open>RobotStatus\<close>,
  \<open>ProgramStatus\<close>, \<open>RobotData\<close>) are declared in headers that are not part of the
  sources at hand.  Their numeric values are therefore a parameter of every function below:
  one record holding each enumerator as the \<open>int\<close> it stands for.
\<close>

record Decls =
  DS_ControlTest :: int
  DS_ControlTeleOp :: int
  DS_ControlDisabled :: int
  DS_ControlAutonomous :: int
  DS_ControlEmergencyStop :: int
  DS_AllianceRed1 :: int
  DS_AllianceRed2 :: int
  DS_AllianceRed3 :: int
  DS_AllianceBlue1 :: int
  DS_AllianceBlue2 :: int
  DS_AllianceBlue3 :: int
  GeneralHeader :: int
  JoystickHeader :: int
  OperationModes_Test :: int
  OperationModes_TeleOperated :: int
  OperationModes_Disabled :: int
  OperationModes_Autonomous :: int
  OperationModes_EmergencyStop :: int
  Alliances_Red1 :: int
  Alliances_Red2 :: int
  Alliances_Red3 :: int
  Alliances_Blue1 :: int
  Alliances_Blue2 :: int
  Alliances_Blue3 :: int
  RobotStatus_Normal :: int
  RobotStatus_RebootRobot :: int
  RobotStatus_RestartCode :: int
  ProgramStatus_NoProgram :: int
  RobotData_VoltageMajor :: int
  RobotData_VoltageMinor :: int
  RobotData_RobotStatus :: int
  RobotData_ControlEcho :: int

text \<open>
  A joystick snapshot.  The axis values are floating-point numbers; their type is left
  open (\<open>'f\<close>), and the conversion of \<open>axes [axis] * (0xff / 2)\<close> to a \<open>char\<close> is a
  parameter \<open>axisChar\<close> of the encoder.  The three arrays are lists; reading an entry that
  is not there is a fault.  The three counts are C++ \<open>int\<close>s: 32-bit words read as
  two's complement (\<open>sint\<close>), on which \<open>+\<close> and \<open>*\<close> wrap around as they do on the
  targets of the driver station.  The ping index \<open>m_index\<close> of the protocol object is an
  \<open>int\<close> too; it never leaves the range from 0 to 0xFFFF and is an integer here.
  \<open>controlMode ()\<close> and \<open>alliance ()\<close> are the getters of the base class for
  \<open>p_controlMode\<close> and \<open>p_alliance\<close>.
\<close>

type_synonym cint = "32 word"

record 'f DS_Joystick =
  numAxes :: cint
  numButtons :: cint
  numPovHats :: cint
  axes :: "'f list"
  buttons :: "bool list"
  povHats :: "int list"

record 'f DS_Protocol2015 =
  m_index :: int
  m_justConnected :: bool
  m_status :: int
  p_controlMode :: int
  p_alliance :: int
  p_robotCode :: bool
  p_robotAddress :: string
  p_team :: int
  p_joysticks :: "'f DS_Joystick list"

datatype signal =
    voltageChanged real
  | codeChanged bool
  | controlModeChanged int
  | managerGet string

text \<open>
  Modelled from the spec: \<open>setControlMode\<close> belongs to the protocol base class, which is
  not among the sources.  The spec gives \<open>reset\<close> the effect "control mode \<leftarrow> Disabled";
  the setter stores its argument in the cached control mode.
\<close>

definition setControlMode :: "int \<Rightarrow> 'f DS_Protocol2015 \<Rightarrow> 'f DS_Protocol2015" where
  "setControlMode mode s = s\<lparr>p_controlMode := mode\<rparr>"

definition reset :: "Decls \<Rightarrow> 'f DS_Protocol2015 \<Rightarrow> 'f DS_Protocol2015" where
  "reset c s =
     setControlMode (DS_ControlDisabled c)
       (s\<lparr>m_index := 0, m_justConnected := False, m_status := RobotStatus_Normal c\<rparr>)"

definition reboot :: "Decls \<Rightarrow> 'f DS_Protocol2015 \<Rightarrow> 'f DS_Protocol2015" where
  "reboot c s = s\<lparr>m_status := RobotStatus_RebootRobot c\<rparr>"

definition restartCode :: "Decls \<Rightarrow> 'f DS_Protocol2015 \<Rightarrow> 'f DS_Protocol2015" where
  "restartCode c s = s\<lparr>m_status := RobotStatus_RestartCode c\<rparr>"

definition robotAddress :: "'f DS_Protocol2015 \<Rightarrow> string" where
  "robotAddress s =
     (if p_robotAddress s = [] then ''roboRIO-'' @ QString_number (p_team s) @ ''.local''
      else p_robotAddress s)"

definition PCM_FILE :: string where "PCM_FILE = ''/tmp/frc_versions/PCM-0-versions.ini''"
definition PDP_FILE :: string where "PDP_FILE = ''/tmp/frc_versions/PDP-0-versions.ini''"
definition LIB_FILE :: string where "LIB_FILE = ''/tmp/frc_versions/FRC_Lib_Version.ini''"

definition downloadRobotInformation :: "'f DS_Protocol2015 \<Rightarrow> signal list" where
  "downloadRobotInformation s =
     (let host = ''ftp://'' @ robotAddress s
      in [managerGet (host @ LIB_FILE), managerGet (host @ PCM_FILE), managerGet (host @ PDP_FILE)])"

definition getControlCode :: "Decls \<Rightarrow> int \<Rightarrow> byte" where
  "getControlCode c mode =
     (if mode = DS_ControlTest c then word_of_int (OperationModes_Test c)
      else if mode = DS_ControlTeleOp c then word_of_int (OperationModes_TeleOperated c)
      else if mode = DS_ControlDisabled c then word_of_int (OperationModes_Disabled c)
      else if mode = DS_ControlAutonomous c then word_of_int (OperationModes_Autonomous c)
      else if mode = DS_ControlEmergencyStop c then word_of_int (OperationModes_EmergencyStop c)
      else word_of_int (OperationModes_Disabled c))"

definition getAllianceCode :: "Decls \<Rightarrow> int \<Rightarrow> byte" where
  "getAllianceCode c alliance =
     (if alliance = DS_AllianceRed1 c then word_of_int (Alliances_Red1 c)
      else if alliance = DS_AllianceRed2 c then word_of_int (Alliances_Red2 c)
      else if alliance = DS_AllianceRed3 c then word_of_int (Alliances_Red3 c)
      else if alliance = DS_AllianceBlue1 c then word_of_int (Alliances_Blue1 c)
      else if alliance = DS_AllianceBlue2 c then word_of_int (Alliances_Blue2 c)
      else if alliance = DS_AllianceBlue3 c then word_of_int (Alliances_Blue3 c)
      else word_of_int (Alliances_Red1 c))"

text \<open>
  Dividing an \<open>int\<close> by 8 cannot overflow, so quotient and remainder are taken on the
  signed value; the five summands are added as words.
\<close>

definition getJoystickSize :: "'f DS_Joystick \<Rightarrow> cint" where
  "getJoystickSize j =
     5
     + (if sint (numAxes j) > 0 then numAxes j else 0)
     + word_of_int (cdiv (sint (numButtons j)) 8)
     + (if crem (sint (numButtons j)) 8 = 0 then 0 else 1)
     + (if sint (numPovHats j) > 0 then numPovHats j * 2 else 0)"

text \<open>
  Modelled from the spec: \<open>DS_PingData::generatePingData\<close> is defined outside the
  sources.  The spec lays the ping index out big-endian, high byte at offset 0 and low byte
  at offset 1.
\<close>

definition generatePingData :: "int \<Rightarrow> byte \<times> byte" where
  "generatePingData index = (word_of_int (index div 256), word_of_int index)"

text \<open>
  Modelled from the spec: \<open>bitsToBytes\<close> is defined outside the sources.  The spec packs
  the buttons LSB-first into \<open>ceil (numButtons / 8)\<close> bytes.
\<close>

fun bitsToBytes :: "bool list \<Rightarrow> QByteArray" where
  "bitsToBytes [] = []"
| "bitsToBytes (b # bs) = horner_sum of_bool 2 (take 8 (b # bs)) # bitsToBytes (drop 7 bs)"

text \<open>The three inner loops of \<open>generateJoystickData\<close>, from index \<open>k\<close> upwards.\<close>

function axisLoop :: "('f \<Rightarrow> byte) \<Rightarrow> 'f DS_Joystick \<Rightarrow> int \<Rightarrow> fault + QByteArray" where
  "axisLoop axisChar j k =
     (if k < sint (numAxes j) then
        (case at_index (axes j) k of
           Inl e \<Rightarrow> Inl e
         | Inr a \<Rightarrow> (case axisLoop axisChar j (k + 1) of
                      Inl e \<Rightarrow> Inl e
                    | Inr rest \<Rightarrow> Inr (axisChar a # rest)))
      else Inr [])"
  by pat_completeness auto
termination
  by (relation "measure (\<lambda>(f, j, k). nat (sint (numAxes j) - k))") auto

function buttonLoop :: "'f DS_Joystick \<Rightarrow> int \<Rightarrow> fault + bool list" where
  "buttonLoop j k =
     (if k < sint (numButtons j) then
        (case at_index (buttons j) k of
           Inl e \<Rightarrow> Inl e
         | Inr b \<Rightarrow> (case buttonLoop j (k + 1) of
                      Inl e \<Rightarrow> Inl e
                    | Inr rest \<Rightarrow> Inr (b # rest)))
      else Inr [])"
  by pat_completeness auto
termination
  by (relation "measure (\<lambda>(j, k). nat (sint (numButtons j) - k))") auto

text \<open>
  Each hat is written through a one-byte array that is resized but never initialised, so the
  first of its two bytes is whatever the allocation held: \<open>junk k\<close> for hat \<open>k\<close>.
\<close>

function hatLoop :: "(int \<Rightarrow> byte) \<Rightarrow> 'f DS_Joystick \<Rightarrow> int \<Rightarrow> fault + QByteArray" where
  "hatLoop junk j k =
     (if k < sint (numPovHats j) then
        (case at_index (povHats j) k of
           Inl e \<Rightarrow> Inl e
         | Inr h \<Rightarrow> (case hatLoop junk j (k + 1) of
                      Inl e \<Rightarrow> Inl e
                    | Inr rest \<Rightarrow> Inr (junk k # word_of_int h # rest)))
      else Inr [])"
  by pat_completeness auto
termination
  by (relation "measure (\<lambda>(f, j, k). nat (sint (numPovHats j) - k))") auto

declare axisLoop.simps [simp del] buttonLoop.simps [simp del] hatLoop.simps [simp del]

text \<open>The body of the outer loop: the block of one joystick (\<open>i\<close> is its position).\<close>

definition joystickBlock ::
  "Decls \<Rightarrow> ('f \<Rightarrow> byte) \<Rightarrow> (int \<Rightarrow> int \<Rightarrow> byte) \<Rightarrow> int \<Rightarrow> 'f DS_Joystick \<Rightarrow> fault + QByteArray"
where
  "joystickBlock c axisChar junk i j =
     (case axisLoop axisChar j 0 of
        Inl e \<Rightarrow> Inl e
      | Inr axisBytes \<Rightarrow>
          if sint (numButtons j) < 0 then Inl NegativeSize
          else
            (case buttonLoop j 0 of
               Inl e \<Rightarrow> Inl e
             | Inr bits \<Rightarrow>
                 (case hatLoop (junk i) j 0 of
                    Inl e \<Rightarrow> Inl e
                  | Inr hatBytes \<Rightarrow>
                      Inr ([ucast (getJoystickSize j), word_of_int (JoystickHeader c),
                            ucast (numAxes j)]
                           @ axisBytes
                           @ [ucast (numButtons j)]
                           @ bitsToBytes bits
                           @ [ucast (numPovHats j)]
                           @ hatBytes))))"

fun joystickBlocks ::
  "Decls \<Rightarrow> ('f \<Rightarrow> byte) \<Rightarrow> (int \<Rightarrow> int \<Rightarrow> byte) \<Rightarrow> int \<Rightarrow> 'f DS_Joystick list \<Rightarrow> fault + QByteArray"
where
  "joystickBlocks c axisChar junk i [] = Inr []"
| "joystickBlocks c axisChar junk i (j # js) =
     (case joystickBlock c axisChar junk i j of
        Inl e \<Rightarrow> Inl e
      | Inr block \<Rightarrow> (case joystickBlocks c axisChar junk (i + 1) js of
                       Inl e \<Rightarrow> Inl e
                     | Inr rest \<Rightarrow> Inr (block @ rest)))"

definition generateJoystickData ::
  "Decls \<Rightarrow> ('f \<Rightarrow> byte) \<Rightarrow> (int \<Rightarrow> int \<Rightarrow> byte) \<Rightarrow> 'f DS_Protocol2015 \<Rightarrow> fault + QByteArray"
where
  "generateJoystickData c axisChar junk s = joystickBlocks c axisChar junk 0 (p_joysticks s)"

definition generateClientPacket ::
  "Decls \<Rightarrow> ('f \<Rightarrow> byte) \<Rightarrow> (int \<Rightarrow> int \<Rightarrow> byte) \<Rightarrow> 'f DS_Protocol2015
     \<Rightarrow> fault + (QByteArray \<times> 'f DS_Protocol2015)"
where
  "generateClientPacket c axisChar junk s =
     (let index = m_index s + 1;
          index = (if index \<ge> 0xffff then 0 else index);
          s' = s\<lparr>m_index := index\<rparr>;
          ping = generatePingData index;
          data = [fst ping, snd ping, word_of_int (GeneralHeader c),
                  getControlCode c (p_controlMode s'), word_of_int (m_status s'),
                  getAllianceCode c (p_alliance s')]
      in if p_controlMode s' = DS_ControlTeleOp c then
           (case generateJoystickData c axisChar junk s' of
              Inl e \<Rightarrow> Inl e
            | Inr joysticks \<Rightarrow> Inr (data @ joysticks, s'))
         else Inr (data, s'))"

definition readRobotData ::
  "Decls \<Rightarrow> QByteArray \<Rightarrow> 'f DS_Protocol2015 \<Rightarrow> fault + (signal list \<times> 'f DS_Protocol2015)"
where
  "readRobotData c data s =
     (if data \<noteq> [] \<and> length data \<ge> 8 then
        (case at_index data (RobotData_VoltageMajor c) of
           Inl e \<Rightarrow> Inl e
         | Inr majorByte \<Rightarrow>
        (case at_index data (RobotData_VoltageMinor c) of
           Inl e \<Rightarrow> Inl e
         | Inr minorByte \<Rightarrow>
        (case at_index data (RobotData_RobotStatus c) of
           Inl e \<Rightarrow> Inl e
         | Inr statusByte \<Rightarrow>
        (case at_index data (RobotData_ControlEcho c) of
           Inl e \<Rightarrow> Inl e
         | Inr echoByte \<Rightarrow>
           (let major = real_of_int (sint majorByte);
                minor = real_of_int (cdiv (sint minorByte) 100);
                code = (sint statusByte \<noteq> ProgramStatus_NoProgram c);
                s1 = (if p_robotCode s \<noteq> code then s\<lparr>p_robotCode := code\<rparr> else s);
                mode = sint echoByte;
                s2 = (if \<not> m_justConnected s1 then s1\<lparr>m_justConnected := True\<rparr> else s1)
            in Inr ([voltageChanged (major + minor)]
                    @ (if p_robotCode s \<noteq> code then [codeChanged code] else [])
                    @ (if p_controlMode s1 \<noteq> mode then [controlModeChanged mode] else [])
                    @ (if \<not> m_justConnected s1 then downloadRobotInformation s2 else []),
                    s2))))))
      else Inr ([], s))"

text \<open>Consecutive calls: \<open>n\<close> client packets in a row, and a sequence of inbound packets.\<close>

fun clientPackets ::
  "Decls \<Rightarrow> ('f \<Rightarrow> byte) \<Rightarrow> (int \<Rightarrow> int \<Rightarrow> byte) \<Rightarrow> nat \<Rightarrow> 'f DS_Protocol2015
     \<Rightarrow> fault + (QByteArray list \<times> 'f DS_Protocol2015)"
where
  "clientPackets c axisChar junk 0 s = Inr ([], s)"
| "clientPackets c axisChar junk (Suc n) s =
     (case generateClientPacket c axisChar junk s of
        Inl e \<Rightarrow> Inl e
      | Inr (d, s') \<Rightarrow>
          (case clientPackets c axisChar junk n s' of
             Inl e \<Rightarrow> Inl e
           | Inr (ds, s'') \<Rightarrow> Inr (d # ds, s'')))"

fun readPackets ::
  "Decls \<Rightarrow> QByteArray list \<Rightarrow> 'f DS_Protocol2015 \<Rightarrow> fault + (signal list \<times> 'f DS_Protocol2015)"
where
  "readPackets c [] s = Inr ([], s)"
| "readPackets c (d # ds) s =
     (case readRobotData c d s of
        Inl e \<Rightarrow> Inl e
      | Inr (evs, s') \<Rightarrow>
          (case readPackets c ds s' of
             Inl e \<Rightarrow> Inl e
           | Inr (evs', s'') \<Rightarrow> Inr (evs @ evs', s'')))"

definition signalsOf :: "fault + (signal list \<times> 'f DS_Protocol2015) \<Rightarrow> signal list" where
  "signalsOf r = (case r of Inl e \<Rightarrow> [] | Inr (evs, s) \<Rightarrow> evs)"

text \<open>The four \<open>RobotData\<close> offsets lie inside a packet of \<open>n\<close> bytes.\<close>

definition offsetsWithin :: "Decls \<Rightarrow> int \<Rightarrow> bool" where
  "offsetsWithin c n \<longleftrightarrow>
     0 \<le> RobotData_VoltageMajor c \<and> RobotData_VoltageMajor c < n \<and>
     0 \<le> RobotData_VoltageMinor c \<and> RobotData_VoltageMinor c < n \<and>
     0 \<le> RobotData_RobotStatus c \<and> RobotData_RobotStatus c < n \<and>
     0 \<le> RobotData_ControlEcho c \<and> RobotData_ControlEcho c < n"

text \<open>
  Sample values for the examples: one assignment of the header constants (distinct
  enumerators, offsets below 8), a joystick with one axis and three buttons, and a protocol
  object.  The axis of the sample joystick is given already scaled, so its \<open>axisChar\<close> is
  \<open>word_of_int\<close>.
\<close>

definition exampleDecls :: Decls where
  "exampleDecls =
     \<lparr> DS_ControlTest = 0, DS_ControlTeleOp = 1, DS_ControlDisabled = 2,
       DS_ControlAutonomous = 3, DS_ControlEmergencyStop = 4,
       DS_AllianceRed1 = 0, DS_AllianceRed2 = 1, DS_AllianceRed3 = 2,
       DS_AllianceBlue1 = 3, DS_AllianceBlue2 = 4, DS_AllianceBlue3 = 5,
       GeneralHeader = 1, JoystickHeader = 12,
       OperationModes_Test = 5, OperationModes_TeleOperated = 4, OperationModes_Disabled = 0,
       OperationModes_Autonomous = 6, OperationModes_EmergencyStop = 128,
       Alliances_Red1 = 0, Alliances_Red2 = 1, Alliances_Red3 = 2,
       Alliances_Blue1 = 3, Alliances_Blue2 = 4, Alliances_Blue3 = 5,
       RobotStatus_Normal = 16, RobotStatus_RebootRobot = 24, RobotStatus_RestartCode = 20,
       ProgramStatus_NoProgram = 0,
       RobotData_VoltageMajor = 5, RobotData_VoltageMinor = 6,
       RobotData_RobotStatus = 4, RobotData_ControlEcho = 3 \<rparr>"

definition exampleJoystick :: "int DS_Joystick" where
  "exampleJoystick =
     \<lparr> numAxes = 1, numButtons = 3, numPovHats = 0,
       axes = [127], buttons = [True, False, True], povHats = [] \<rparr>"

text \<open>A joystick that announces as many axes as an \<open>int\<close> can count.\<close>

definition hugeJoystick :: "int DS_Joystick" where
  "hugeJoystick =
     \<lparr> numAxes = 0x7FFFFFFF, numButtons = 0, numPovHats = 0,
       axes = [], buttons = [], povHats = [] \<rparr>"

definition exampleProtocol :: "int DS_Protocol2015" where
  "exampleProtocol =
     \<lparr> m_index = 0, m_justConnected = False, m_status = 16, p_controlMode = 2,
       p_alliance = 0, p_robotCode = False, p_robotAddress = [], p_team = 3794,
       p_joysticks = [exampleJoystick] \<rparr>"

text \<open>An inbound packet: control echo 1, status 0, voltage bytes 12 and 34.\<close>

definition examplePacket :: QByteArray where
  "examplePacket = [0, 0, 0, 1, 0, 12, 34, 0]"

section \<open>The socket manager (Sockets.cpp)\<close>

text \<open>
  A \<open>ConfigurableSocket\<close> is created with a socket type; what the manager later does to
  it (bind, connect, write, socket options) is a call on the object, recorded as an effect
  in the order of the calls.  Signals emitted by the manager are effects too.  The macro
  \<open>DISABLED_PORT\<close> comes from a header outside the sources and is the parameter \<open>dp\<close>.
  \<open>QHostAddress::Any\<close> is written as its textual form.
\<close>

datatype SocketType = kSocketTypeUDP | kSocketTypeTCP

datatype ConfigurableSocket = Socket SocketType

datatype endpoint =
    fmsSender | fmsReceiver | radioSender | radioReceiver | robotSender
  | robotSenderList int
  | robotInputSockets int

datatype effect =
    WriteDatagram endpoint QByteArray string int
  | Bind endpoint string int
  | ConnectToHost endpoint string int
  | DisconnectFromHost endpoint
  | SetSocketOption endpoint
  | fmsPacketReceived QByteArray
  | radioPacketReceived QByteArray
  | robotPacketReceived QByteArray

definition QHostAddress_Any :: string where
  "QHostAddress_Any = ''0.0.0.0''"

record Sockets =
  m_iterator :: int
  m_socketCount :: int
  m_robotIp :: string
  m_radioIp :: string
  m_fmsSender :: "ConfigurableSocket option"
  m_fmsReceiver :: "ConfigurableSocket option"
  m_radioSender :: "ConfigurableSocket option"
  m_robotSender :: "ConfigurableSocket option"
  m_radioReceiver :: "ConfigurableSocket option"
  m_fmsInput :: int
  m_fmsOutput :: int
  m_radioInput :: int
  m_robotInput :: int
  m_radioOutput :: int
  m_robotOutput :: int
  m_robotIpList :: "string list"
  m_fmsSocketType :: SocketType
  m_radioSocketType :: SocketType
  m_robotSocketType :: SocketType
  m_robotSenderList :: "ConfigurableSocket list"
  m_robotInputSockets :: "ConfigurableSocket list"

text \<open>The constructor.\<close>

definition Sockets_new :: "int \<Rightarrow> Sockets" where
  "Sockets_new dp =
     \<lparr> m_iterator = 0, m_socketCount = 0, m_robotIp = [], m_radioIp = [],
       m_fmsSender = None, m_fmsReceiver = None, m_radioSender = None,
       m_robotSender = None, m_radioReceiver = None,
       m_fmsInput = dp, m_fmsOutput = dp, m_radioInput = dp,
       m_robotInput = dp, m_radioOutput = dp, m_robotOutput = dp,
       m_robotIpList = [[]],
       m_fmsSocketType = kSocketTypeUDP, m_radioSocketType = kSocketTypeUDP,
       m_robotSocketType = kSocketTypeUDP,
       m_robotSenderList = [], m_robotInputSockets = [] \<rparr>"

definition socketCount :: "Sockets \<Rightarrow> int" where
  "socketCount s =
     (let count = (if m_socketCount s > 0 then m_socketCount s
                   else min 72 (max (cdiv (int (length (m_robotIpList s))) 6) 1))
      in min count 128)"

subsection \<open>Rotating the probe window\<close>

function rebindLoop :: "Sockets \<Rightarrow> int \<Rightarrow> int \<Rightarrow> fault + effect list" where
  "rebindLoop s psc i =
     (if i < psc then
        (let socketExists = psc > i;
             addressExists = psc > (m_iterator s + i)
         in if socketExists \<and> addressExists then
              (case at_index (m_robotInputSockets s) i of
                 Inl e \<Rightarrow> Inl e
               | Inr receiver \<Rightarrow>
                   (case at_index (m_robotIpList s) (m_iterator s + i) of
                      Inl e \<Rightarrow> Inl e
                    | Inr ip \<Rightarrow>
                        (case rebindLoop s psc (i + 1) of
                           Inl e \<Rightarrow> Inl e
                         | Inr rest \<Rightarrow>
                             Inr (DisconnectFromHost (robotInputSockets i)
                                  # Bind (robotInputSockets i) ip (m_robotInput s)
                                  # rest))))
            else rebindLoop s psc (i + 1))
      else Inr [])"
  by pat_completeness auto
termination
  by (relation "measure (\<lambda>(s, psc, i). nat (psc - i))") auto

declare rebindLoop.simps [simp del]

definition refreshAddressList :: "Sockets \<Rightarrow> fault + (effect list \<times> Sockets)" where
  "refreshAddressList s =
     (if m_robotIp s = [] \<and> m_robotIpList s \<noteq> [] then
        (let s' = (if int (length (m_robotIpList s)) > m_iterator s + socketCount s
                   then s\<lparr>m_iterator := m_iterator s + socketCount s\<rparr>
                   else s\<lparr>m_iterator := 0\<rparr>);
             psc = int (length (m_robotInputSockets s'))
         in case rebindLoop s' psc 0 of
              Inl e \<Rightarrow> Inl e
            | Inr effects \<Rightarrow> Inr (effects, s'))
      else Inr ([], s))"

subsection \<open>Sending\<close>

definition sendToFMS :: "int \<Rightarrow> QByteArray \<Rightarrow> Sockets \<Rightarrow> effect list" where
  "sendToFMS dp data s =
     (if m_fmsSender s \<noteq> None \<and> m_fmsOutput s \<noteq> dp
      then [WriteDatagram fmsSender data QHostAddress_Any (m_fmsOutput s)] else [])"

function fanOutLoop :: "Sockets \<Rightarrow> QByteArray \<Rightarrow> int \<Rightarrow> fault + effect list" where
  "fanOutLoop s data i =
     (if i < socketCount s then
        (if socketCount s > i \<and> int (length (m_robotIpList s)) > (m_iterator s + i) then
           (case at_index (m_robotIpList s) (m_iterator s + i) of
              Inl e \<Rightarrow> Inl e
            | Inr ip \<Rightarrow>
                (case at_index (m_robotSenderList s) i of
                   Inl e \<Rightarrow> Inl e
                 | Inr sender \<Rightarrow>
                     (case fanOutLoop s data (i + 1) of
                        Inl e \<Rightarrow> Inl e
                      | Inr rest \<Rightarrow>
                          Inr (WriteDatagram (robotSenderList i) data ip (m_robotOutput s)
                               # rest))))
         else fanOutLoop s data (i + 1))
      else Inr [])"
  by pat_completeness auto
termination
  by (relation "measure (\<lambda>(s, data, i). nat (socketCount s - i))") auto

declare fanOutLoop.simps [simp del]

definition sendToRobot :: "int \<Rightarrow> QByteArray \<Rightarrow> Sockets \<Rightarrow> fault + effect list" where
  "sendToRobot dp data s =
     (if m_robotOutput s = dp then Inr []
      else if m_robotSender s \<noteq> None \<and> m_robotIp s \<noteq> [] then
        Inr [WriteDatagram robotSender data (m_robotIp s) (m_robotOutput s)]
      else fanOutLoop s data 0)"

definition sendToRadio :: "int \<Rightarrow> QByteArray \<Rightarrow> Sockets \<Rightarrow> effect list" where
  "sendToRadio dp data s =
     (if m_radioSender s \<noteq> None \<and> m_radioOutput s \<noteq> dp
      then [WriteDatagram radioSender data (m_radioIp s) (m_radioOutput s)] else [])"

subsection \<open>The pool\<close>

definition clearSocketLists :: "Sockets \<Rightarrow> Sockets" where
  "clearSocketLists s = s\<lparr>m_iterator := 0, m_robotSenderList := [], m_robotInputSockets := []\<rparr>"

text \<open>
  The loop of \<open>generateSocketPairs\<close> appends one sender and one receiver per round; its
  bound \<open>socketCount ()\<close> reads only the custom count and the address list, which the loop
  does not touch.  Connecting the receiver's \<open>readyRead\<close> signal to \<open>readRobotSocket\<close> is
  what makes the read handler run later; the socket option is recorded as an effect.
\<close>

fun pairLoop :: "nat \<Rightarrow> int \<Rightarrow> effect list \<times> Sockets \<Rightarrow> effect list \<times> Sockets" where
  "pairLoop 0 i (es, s) = (es, s)"
| "pairLoop (Suc n) i (es, s) =
     pairLoop n (i + 1)
       (es @ [SetSocketOption (robotInputSockets i)],
        s\<lparr>m_robotSenderList := m_robotSenderList s @ [Socket (m_robotSocketType s)],
          m_robotInputSockets := m_robotInputSockets s @ [Socket (m_robotSocketType s)]\<rparr>)"

definition generateSocketPairs :: "Sockets \<Rightarrow> effect list \<times> Sockets" where
  "generateSocketPairs s =
     (let s' = clearSocketLists s in pairLoop (nat (socketCount s')) 0 ([], s'))"

subsection \<open>The local-network sweep\<close>

text \<open>
  The host's interfaces are an input: for each one its up and running flags and its address
  entries.  A \<open>QHostAddress\<close> is null or has a textual form; a null address prints as the
  empty string.  \<open>QString::split\<close> keeps empty parts.  The three \<open>arg\<close> substitutions
  build the prefix out of the first three parts.
\<close>

datatype QHostAddress = NullAddress | Address string

fun toString :: "QHostAddress \<Rightarrow> string" where
  "toString NullAddress = []"
| "toString (Address a) = a"

fun isNull :: "QHostAddress \<Rightarrow> bool" where
  "isNull NullAddress = True"
| "isNull (Address a) = False"

record QNetworkInterface =
  IsUp :: bool
  IsRunning :: bool
  addressEntries :: "QHostAddress list"

fun split :: "char \<Rightarrow> string \<Rightarrow> string list" where
  "split sep [] = [[]]"
| "split sep (x # xs) =
     (if x = sep then [] # split sep xs
      else (case split sep xs of
              [] \<Rightarrow> [[x]]
            | part # parts \<Rightarrow> (x # part) # parts))"

definition sweep :: "string list \<Rightarrow> string list" where
  "sweep numbers =
     (let base = numbers ! 0 @ ''.'' @ numbers ! 1 @ ''.'' @ numbers ! 2 @ ''.''
      in map (\<lambda>i. base @ QString_number i) [1..254])"

fun entryLoop :: "QHostAddress list \<Rightarrow> string list \<Rightarrow> string list" where
  "entryLoop [] ipList = ipList"
| "entryLoop (address # rest) ipList =
     (if toString address = ''127.0.0.1'' then ipList
      else if isNull address then ipList
      else (let numbers = split CHR ''.'' (toString address)
            in entryLoop rest (if length numbers = 4 then ipList @ sweep numbers else ipList)))"

fun interfaceLoop :: "QNetworkInterface list \<Rightarrow> string list \<Rightarrow> string list" where
  "interfaceLoop [] ipList = ipList"
| "interfaceLoop (interface # rest) ipList =
     interfaceLoop rest
       (if IsUp interface \<and> IsRunning interface
        then entryLoop (addressEntries interface) ipList else ipList)"

definition generateLocalNetworkAddresses ::
  "QNetworkInterface list \<Rightarrow> Sockets \<Rightarrow> effect list \<times> Sockets" where
  "generateLocalNetworkAddresses allInterfaces s =
     generateSocketPairs
       (s\<lparr>m_robotIpList := interfaceLoop allInterfaces (m_robotIpList s) @ [''127.0.0.1'']\<rparr>)"

subsection \<open>Setters\<close>

definition setRadioAddress :: "string \<Rightarrow> Sockets \<Rightarrow> effect list \<times> Sockets" where
  "setRadioAddress ip s =
     ((if m_radioReceiver s \<noteq> None then [Bind radioReceiver ip (m_radioInput s)] else [])
      @ (if m_radioSender s \<noteq> None then [ConnectToHost radioSender ip (m_radioInput s)] else []),
      s\<lparr>m_radioIp := ip\<rparr>)"

definition setRobotAddress :: "string \<Rightarrow> Sockets \<Rightarrow> effect list \<times> Sockets" where
  "setRobotAddress ip s =
     (if m_robotIp s \<noteq> ip then
        (if m_robotSender s \<noteq> None then [ConnectToHost robotSender ip (m_robotOutput s)] else [],
         s\<lparr>m_robotIp := ip\<rparr>)
      else ([], s))"

definition setAddressList ::
  "QNetworkInterface list \<Rightarrow> string list \<Rightarrow> Sockets \<Rightarrow> effect list \<times> Sockets" where
  "setAddressList allInterfaces list s =
     generateLocalNetworkAddresses allInterfaces (s\<lparr>m_robotIpList := list\<rparr>)"

definition setFMSInputPort :: "int \<Rightarrow> Sockets \<Rightarrow> effect list \<times> Sockets" where
  "setFMSInputPort port s =
     (if m_fmsInput s \<noteq> port then
        (if m_fmsReceiver s \<noteq> None then [Bind fmsReceiver QHostAddress_Any port] else [],
         s\<lparr>m_fmsInput := port\<rparr>)
      else ([], s))"

definition setFMSOutputPort :: "int \<Rightarrow> Sockets \<Rightarrow> effect list \<times> Sockets" where
  "setFMSOutputPort port s =
     (if m_fmsOutput s \<noteq> port then
        (if m_fmsSender s \<noteq> None then [ConnectToHost fmsSender QHostAddress_Any port] else [],
         s\<lparr>m_fmsOutput := port\<rparr>)
      else ([], s))"

definition setRadioInputPort :: "int \<Rightarrow> Sockets \<Rightarrow> effect list \<times> Sockets" where
  "setRadioInputPort port s =
     (if m_radioInput s \<noteq> port then
        (if m_radioReceiver s \<noteq> None then [Bind radioReceiver (m_radioIp s) port] else [],
         s\<lparr>m_radioInput := port\<rparr>)
      else ([], s))"

definition setRobotInputPort :: "int \<Rightarrow> Sockets \<Rightarrow> effect list \<times> Sockets" where
  "setRobotInputPort port s =
     (if m_robotInput s \<noteq> port then ([], s\<lparr>m_robotInput := port\<rparr>) else ([], s))"

definition setRadioOutputPort :: "int \<Rightarrow> Sockets \<Rightarrow> effect list \<times> Sockets" where
  "setRadioOutputPort port s =
     (if m_radioOutput s \<noteq> port then
        (if m_radioSender s \<noteq> None then [ConnectToHost radioSender (m_radioIp s) port] else [],
         s\<lparr>m_radioOutput := port\<rparr>)
      else ([], s))"

definition setRobotOutputPort :: "int \<Rightarrow> Sockets \<Rightarrow> effect list \<times> Sockets" where
  "setRobotOutputPort port s =
     (if m_robotOutput s \<noteq> port then
        (if m_robotSender s \<noteq> None then [ConnectToHost robotSender (m_robotIp s) port] else [],
         s\<lparr>m_robotOutput := port\<rparr>)
      else ([], s))"

definition setCustomSocketCount :: "int \<Rightarrow> Sockets \<Rightarrow> effect list \<times> Sockets" where
  "setCustomSocketCount count s =
     (if m_socketCount s \<noteq> count then generateSocketPairs (s\<lparr>m_socketCount := count\<rparr>)
      else ([], s))"

definition setFMSSocketType :: "SocketType \<Rightarrow> Sockets \<Rightarrow> effect list \<times> Sockets" where
  "setFMSSocketType type s =
     (if m_fmsSocketType s \<noteq> type then
        ([SetSocketOption fmsReceiver],
         s\<lparr>m_fmsSocketType := type, m_fmsSender := Some (Socket type),
           m_fmsReceiver := Some (Socket type)\<rparr>)
      else ([], s))"

definition setRadioSocketType :: "SocketType \<Rightarrow> Sockets \<Rightarrow> effect list \<times> Sockets" where
  "setRadioSocketType type s =
     (if m_radioSocketType s \<noteq> type then
        ([SetSocketOption radioReceiver],
         s\<lparr>m_radioSocketType := type, m_radioSender := Some (Socket type),
           m_radioReceiver := Some (Socket type)\<rparr>)
      else ([], s))"

definition setRobotSocketType :: "SocketType \<Rightarrow> Sockets \<Rightarrow> effect list \<times> Sockets" where
  "setRobotSocketType type s =
     (if m_robotSocketType s \<noteq> type then
        (if type = kSocketTypeTCP
         then [ConnectToHost robotSender (m_robotIp s) (m_robotOutput s)] else [],
         s\<lparr>m_robotSocketType := type, m_robotSender := Some (Socket type)\<rparr>)
      else ([], s))"

subsection \<open>Read handlers\<close>

text \<open>
  A read handler runs when a receiver has data: \<open>readAll\<close> yields the bytes, and for a pool
  receiver \<open>peerAddress\<close> yields the address the datagram came from.  Both are inputs.
\<close>

definition readFMSSocket :: "QByteArray \<Rightarrow> Sockets \<Rightarrow> effect list" where
  "readFMSSocket data s = (if m_fmsReceiver s \<noteq> None then [fmsPacketReceived data] else [])"

definition readRadioSocket :: "QByteArray \<Rightarrow> Sockets \<Rightarrow> effect list" where
  "readRadioSocket data s = (if m_radioReceiver s \<noteq> None then [radioPacketReceived data] else [])"

definition readRobotSocket :: "string \<Rightarrow> QByteArray \<Rightarrow> Sockets \<Rightarrow> effect list \<times> Sockets" where
  "readRobotSocket peerAddress data s =
     (if data \<noteq> [] then
        (let (es, s') = (if m_robotIp s = [] then setRobotAddress peerAddress s else ([], s))
         in (es @ [robotPacketReceived data], s'))
      else ([], s))"

subsection \<open>Sequences of calls\<close>

datatype call =
    SendToFMS QByteArray
  | SendToRobot QByteArray
  | SendToRadio QByteArray
  | RefreshAddressList
  | SetRadioAddress string
  | SetRobotAddress string
  | SetAddressList "QNetworkInterface list" "string list"
  | SetFMSInputPort int
  | SetFMSOutputPort int
  | SetRadioInputPort int
  | SetRobotInputPort int
  | SetRadioOutputPort int
  | SetRobotOutputPort int
  | SetCustomSocketCount int
  | SetFMSSocketType SocketType
  | SetRadioSocketType SocketType
  | SetRobotSocketType SocketType
  | ReadFMSSocket QByteArray
  | ReadRadioSocket QByteArray
  | ReadRobotSocket string QByteArray

fun exec :: "int \<Rightarrow> call \<Rightarrow> Sockets \<Rightarrow> fault + (effect list \<times> Sockets)" where
  "exec dp (SendToFMS data) s = Inr (sendToFMS dp data s, s)"
| "exec dp (SendToRobot data) s =
     (case sendToRobot dp data s of Inl e \<Rightarrow> Inl e | Inr es \<Rightarrow> Inr (es, s))"
| "exec dp (SendToRadio data) s = Inr (sendToRadio dp data s, s)"
| "exec dp RefreshAddressList s = refreshAddressList s"
| "exec dp (SetRadioAddress ip) s = Inr (setRadioAddress ip s)"
| "exec dp (SetRobotAddress ip) s = Inr (setRobotAddress ip s)"
| "exec dp (SetAddressList allInterfaces list) s = Inr (setAddressList allInterfaces list s)"
| "exec dp (SetFMSInputPort port) s = Inr (setFMSInputPort port s)"
| "exec dp (SetFMSOutputPort port) s = Inr (setFMSOutputPort port s)"
| "exec dp (SetRadioInputPort port) s = Inr (setRadioInputPort port s)"
| "exec dp (SetRobotInputPort port) s = Inr (setRobotInputPort port s)"
| "exec dp (SetRadioOutputPort port) s = Inr (setRadioOutputPort port s)"
| "exec dp (SetRobotOutputPort port) s = Inr (setRobotOutputPort port s)"
| "exec dp (SetCustomSocketCount count) s = Inr (setCustomSocketCount count s)"
| "exec dp (SetFMSSocketType type) s = Inr (setFMSSocketType type s)"
| "exec dp (SetRadioSocketType type) s = Inr (setRadioSocketType type s)"
| "exec dp (SetRobotSocketType type) s = Inr (setRobotSocketType type s)"
| "exec dp (ReadFMSSocket data) s = Inr (readFMSSocket data s, s)"
| "exec dp (ReadRadioSocket data) s = Inr (readRadioSocket data s, s)"
| "exec dp (ReadRobotSocket peerAddress data) s = Inr (readRobotSocket peerAddress data s)"

fun run :: "int \<Rightarrow> call list \<Rightarrow> Sockets \<Rightarrow> fault + (effect list \<times> Sockets)" where
  "run dp [] s = Inr ([], s)"
| "run dp (c # cs) s =
     (case exec dp c s of
        Inl e \<Rightarrow> Inl e
      | Inr (es, s') \<Rightarrow>
          (case run dp cs s' of
             Inl e \<Rightarrow> Inl e
           | Inr (es', s'') \<Rightarrow> Inr (es @ es', s'')))"

fun isSetRobotAddress :: "call \<Rightarrow> bool" where
  "isSetRobotAddress (SetRobotAddress ip) = True"
| "isSetRobotAddress c = False"

subsection \<open>Sample configurations\<close>

text \<open>
  A manager that is scanning: constructed, robot ports set to \<open>dp + 1\<close> (input) and
  \<open>dp + 2\<close> (output), custom socket count 2, address list \<open>10.0.0.1\<close>, \<open>10.0.0.2\<close> on a
  host without interfaces.  Its address list has three entries, the third being the
  \<open>127.0.0.1\<close> that the sweep always appends.  \<open>lockedState\<close> is that manager after
  \<open>setRobotAddress\<close>; the socket type is the default, UDP, throughout.
\<close>

definition scanCalls :: "int \<Rightarrow> call list" where
  "scanCalls dp =
     [SetRobotInputPort (dp + 1), SetRobotOutputPort (dp + 2), SetCustomSocketCount 2,
      SetAddressList [] [''10.0.0.1'', ''10.0.0.2'']]"

definition scanState :: "int \<Rightarrow> Sockets" where
  "scanState dp =
     \<lparr> m_iterator = 0, m_socketCount = 2, m_robotIp = [], m_radioIp = [],
       m_fmsSender = None, m_fmsReceiver = None, m_radioSender = None,
       m_robotSender = None, m_radioReceiver = None,
       m_fmsInput = dp, m_fmsOutput = dp, m_radioInput = dp,
       m_robotInput = dp + 1, m_radioOutput = dp, m_robotOutput = dp + 2,
       m_robotIpList = [''10.0.0.1'', ''10.0.0.2'', ''127.0.0.1''],
       m_fmsSocketType = kSocketTypeUDP, m_radioSocketType = kSocketTypeUDP,
       m_robotSocketType = kSocketTypeUDP,
       m_robotSenderList = [Socket kSocketTypeUDP, Socket kSocketTypeUDP],
       m_robotInputSockets = [Socket kSocketTypeUDP, Socket kSocketTypeUDP] \<rparr>"

definition lockedState :: "int \<Rightarrow> Sockets" where
  "lockedState dp = (scanState dp)\<lparr>m_robotIp := ''10.0.0.9''\<rparr>"

text \<open>An interface that is up and running and lists a loopback entry before a LAN entry.\<close>

definition loopbackFirst :: QNetworkInterface where
  "loopbackFirst =
     \<lparr> IsUp = True, IsRunning = True,
       addressEntries = [Address ''127.0.0.1'', Address ''10.0.0.5''] \<rparr>"

text \<open>An interface that lists a LAN entry, then a loopback entry, then another LAN entry.\<close>

definition lanFirst :: QNetworkInterface where
  "lanFirst =
     \<lparr> IsUp = True, IsRunning = True,
       addressEntries = [Address ''10.0.0.5'', Address ''127.0.0.1'', Address ''192.168.1.7''] \<rparr>"

text \<open>
  What the sweep is to contribute, said directly: the entries of an interface that count
  are those in front of its first entry that is \<open>127.0.0.1\<close> or null; an entry with four
  parts \<open>A.B.C.D\<close> stands for \<open>A.B.C.1\<close> to \<open>A.B.C.254\<close>, any other entry for nothing;
  an interface contributes the addresses of its counting entries if it is up and running.
\<close>

definition specLeadingEntries :: "QNetworkInterface \<Rightarrow> QHostAddress list" where
  "specLeadingEntries interface =
     takeWhile (\<lambda>a. toString a \<noteq> ''127.0.0.1'' \<and> \<not> isNull a) (addressEntries interface)"

definition specEntryAddresses :: "QHostAddress \<Rightarrow> string list" where
  "specEntryAddresses a =
     (case split CHR ''.'' (toString a) of
        [A, B, C, D] \<Rightarrow> map (\<lambda>i. A @ ''.'' @ B @ ''.'' @ C @ ''.'' @ QString_number i) [1..254]
      | _ \<Rightarrow> [])"

definition specInterfaceAddresses :: "QNetworkInterface \<Rightarrow> string list" where
  "specInterfaceAddresses interface =
     (if IsUp interface \<and> IsRunning interface
      then concat (map specEntryAddresses (specLeadingEntries interface)) else [])"

text \<open>Everything some effect of a list binds a receiver to.\<close>

fun boundAddresses :: "effect list \<Rightarrow> string list" where
  "boundAddresses [] = []"
| "boundAddresses (Bind ep ip port # es) = ip # boundAddresses es"
| "boundAddresses (e # es) = boundAddresses es"

section \<open>Properties of the protocol codec\<close>

lemma cdiv_nonneg: "0 \<le> a \<Longrightarrow> 0 < b \<Longrightarrow> cdiv a b = a div b"
  by (simp add: cdiv_def)

lemma crem_nonneg: "0 \<le> a \<Longrightarrow> 0 < b \<Longrightarrow> crem a b = a mod b"
  by (simp add: crem_def cdiv_nonneg minus_mult_div_eq_mod)

lemma button_bytes: "0 \<le> n \<Longrightarrow> cdiv n 8 + (if crem n 8 = 0 then 0 else 1) = (n + 7) div 8"
  by (simp add: cdiv_nonneg crem_nonneg) presburger

lemma ceiling_eighth: "\<lceil>real_of_int n / 8\<rceil> = (n + 7) div 8"
proof -
  have "\<lceil>real_of_int n / 8\<rceil> = - \<lfloor>real_of_int (- n) / real_of_int 8\<rfloor>"
    by (simp add: ceiling_def)
  also have "\<dots> = - ((- n) div 8)"
    by (simp only: floor_divide_of_int_eq)
  also have "\<dots> = (n + 7) div 8" by presburger
  finally show ?thesis .
qed

lemma bitsToBytes_length: "length (bitsToBytes bs) = (length bs + 7) div 8"
proof (induction bs rule: bitsToBytes.induct)
  case 1 show ?case by simp
next
  case (2 b bs)
  show ?case
  proof (cases "length bs \<ge> 7")
    case True
    then show ?thesis using 2 by simp
  next
    case False
    then have "drop 7 bs = []" by simp
    with False show ?thesis by simp
  qed
qed

lemma axisLoop_length:
  "axisLoop f j k = Inr bs \<Longrightarrow> k \<le> sint (numAxes j) \<Longrightarrow> int (length bs) = sint (numAxes j) - k"
proof (induction f j k arbitrary: bs rule: axisLoop.induct)
  case (1 f j k)
  show ?case
  proof (cases "k < sint (numAxes j)")
    case True
    with "1.prems" obtain a rest where a: "at_index (axes j) k = Inr a"
      and r: "axisLoop f j (k + 1) = Inr rest" and bs: "bs = f a # rest"
      by (subst (asm) axisLoop.simps) (auto split: sum.splits)
    from "1.IH"[OF True a r] True have "int (length rest) = sint (numAxes j) - (k + 1)" by simp
    with bs show ?thesis by simp
  next
    case False
    with "1.prems" show ?thesis by (subst (asm) axisLoop.simps) auto
  qed
qed

lemma buttonLoop_length:
  "buttonLoop j k = Inr bs \<Longrightarrow> k \<le> sint (numButtons j) \<Longrightarrow> int (length bs) = sint (numButtons j) - k"
proof (induction j k arbitrary: bs rule: buttonLoop.induct)
  case (1 j k)
  show ?case
  proof (cases "k < sint (numButtons j)")
    case True
    with "1.prems" obtain a rest where a: "at_index (buttons j) k = Inr a"
      and r: "buttonLoop j (k + 1) = Inr rest" and bs: "bs = a # rest"
      by (subst (asm) buttonLoop.simps) (auto split: sum.splits)
    from "1.IH"[OF True a r] True have "int (length rest) = sint (numButtons j) - (k + 1)" by simp
    with bs show ?thesis by simp
  next
    case False
    with "1.prems" show ?thesis by (subst (asm) buttonLoop.simps) auto
  qed
qed

lemma hatLoop_length:
  "hatLoop g j k = Inr bs \<Longrightarrow> k \<le> sint (numPovHats j) \<Longrightarrow> int (length bs) = 2 * (sint (numPovHats j) - k)"
proof (induction g j k arbitrary: bs rule: hatLoop.induct)
  case (1 g j k)
  show ?case
  proof (cases "k < sint (numPovHats j)")
    case True
    with "1.prems" obtain a rest where a: "at_index (povHats j) k = Inr a"
      and r: "hatLoop g j (k + 1) = Inr rest" and bs: "bs = g k # word_of_int a # rest"
      by (subst (asm) hatLoop.simps) (auto split: sum.splits)
    from "1.IH"[OF True a r] True have "int (length rest) = 2 * (sint (numPovHats j) - (k + 1))" by simp
    with bs show ?thesis by simp
  next
    case False
    with "1.prems" show ?thesis by (subst (asm) hatLoop.simps) auto
  qed
qed

lemma axisLoop_total:
  "0 \<le> k \<Longrightarrow> sint (numAxes j) \<le> int (length (axes j)) \<Longrightarrow> \<exists>bs. axisLoop f j k = Inr bs"
proof (induction f j k rule: axisLoop.induct)
  case (1 f j k)
  show ?case
  proof (cases "k < sint (numAxes j)")
    case True
    with "1.prems" have a: "at_index (axes j) k = Inr (axes j ! nat k)" by (simp add: at_index_def)
    from "1.IH"[OF True a] "1.prems" obtain rest where "axisLoop f j (k + 1) = Inr rest" by auto
    with a True show ?thesis by (subst axisLoop.simps) simp
  next
    case False
    then show ?thesis by (subst axisLoop.simps) simp
  qed
qed

lemma buttonLoop_total:
  "0 \<le> k \<Longrightarrow> sint (numButtons j) \<le> int (length (buttons j)) \<Longrightarrow> \<exists>bs. buttonLoop j k = Inr bs"
proof (induction j k rule: buttonLoop.induct)
  case (1 j k)
  show ?case
  proof (cases "k < sint (numButtons j)")
    case True
    with "1.prems" have a: "at_index (buttons j) k = Inr (buttons j ! nat k)" by (simp add: at_index_def)
    from "1.IH"[OF True a] "1.prems" obtain rest where "buttonLoop j (k + 1) = Inr rest" by auto
    with a True show ?thesis by (subst buttonLoop.simps) simp
  next
    case False
    then show ?thesis by (subst buttonLoop.simps) simp
  qed
qed

lemma hatLoop_total:
  "0 \<le> k \<Longrightarrow> sint (numPovHats j) \<le> int (length (povHats j)) \<Longrightarrow> \<exists>bs. hatLoop g j k = Inr bs"
proof (induction g j k rule: hatLoop.induct)
  case (1 g j k)
  show ?case
  proof (cases "k < sint (numPovHats j)")
    case True
    with "1.prems" have a: "at_index (povHats j) k = Inr (povHats j ! nat k)" by (simp add: at_index_def)
    from "1.IH"[OF True a] "1.prems" obtain rest where "hatLoop g j (k + 1) = Inr rest" by auto
    with a True show ?thesis by (subst hatLoop.simps) simp
  next
    case False
    then show ?thesis by (subst hatLoop.simps) simp
  qed
qed

lemma getJoystickSize_word:
  assumes "0 \<le> sint (numAxes j)" "0 \<le> sint (numButtons j)" "0 \<le> sint (numPovHats j)"
  shows "getJoystickSize j
         = word_of_int (5 + sint (numAxes j) + (sint (numButtons j) + 7) div 8
                        + 2 * sint (numPovHats j))"
proof -
  have a: "(if sint (numAxes j) > 0 then numAxes j else 0) = word_of_int (sint (numAxes j))"
  proof (cases "sint (numAxes j) > 0")
    case True
    then show ?thesis by simp
  next
    case False
    with assms(1) have "sint (numAxes j) = 0" by simp
    then show ?thesis by simp
  qed
  have h: "(if sint (numPovHats j) > 0 then numPovHats j * 2 else 0)
           = word_of_int (2 * sint (numPovHats j))"
  proof (cases "sint (numPovHats j) > 0")
    case True
    then show ?thesis by simp
  next
    case False
    with assms(3) have "sint (numPovHats j) = 0" by simp
    then show ?thesis by simp
  qed
  have "cdiv (sint (numButtons j)) 8 + (if crem (sint (numButtons j)) 8 = 0 then 0 else 1)
        = (sint (numButtons j) + 7) div 8"
    using assms(2) by (rule button_bytes)
  moreover have "word_of_int (cdiv (sint (numButtons j)) 8)
                + (if crem (sint (numButtons j)) 8 = 0 then 0 else 1)
                = (word_of_int (cdiv (sint (numButtons j)) 8
                                + (if crem (sint (numButtons j)) 8 = 0 then 0 else 1)) :: cint)"
    by simp
  ultimately have b: "word_of_int (cdiv (sint (numButtons j)) 8)
                + (if crem (sint (numButtons j)) 8 = 0 then 0 else 1)
                = (word_of_int ((sint (numButtons j) + 7) div 8) :: cint)"
    by (simp only:)
  have "getJoystickSize j
        = 5 + word_of_int (sint (numAxes j))
          + (word_of_int (cdiv (sint (numButtons j)) 8)
             + (if crem (sint (numButtons j)) 8 = 0 then 0 else 1))
          + word_of_int (2 * sint (numPovHats j))"
    unfolding getJoystickSize_def a h by (simp only: add.assoc)
  also have "\<dots> = word_of_int (5 + sint (numAxes j) + (sint (numButtons j) + 7) div 8
                        + 2 * sint (numPovHats j))"
    unfolding b by simp
  finally show ?thesis .
qed

lemma getJoystickSize_nonneg:
  assumes "0 \<le> sint (numAxes j)" "0 \<le> sint (numButtons j)" "0 \<le> sint (numPovHats j)"
    and "5 + sint (numAxes j) + (sint (numButtons j) + 7) div 8 + 2 * sint (numPovHats j)
         \<le> 2147483647"
  shows "sint (getJoystickSize j)
         = 5 + sint (numAxes j) + (sint (numButtons j) + 7) div 8 + 2 * sint (numPovHats j)"
proof -
  let ?n = "5 + sint (numAxes j) + (sint (numButtons j) + 7) div 8 + 2 * sint (numPovHats j)"
  have lo: "- (2 ^ 31) \<le> ?n" using assms(1-3) by simp
  have hi: "?n < 2 ^ 31" using assms(4) by simp
  have "sint (word_of_int ?n :: cint) = signed_take_bit (LENGTH(32) - 1) ?n"
    by (rule sint_sbintrunc')
  also have "\<dots> = signed_take_bit 31 ?n" by simp
  also have "\<dots> = ?n" using lo hi by (rule signed_take_bit_int_eq_self)
  finally show ?thesis by (simp only: getJoystickSize_word[OF assms(1-3)])
qed

lemma joystickBlock_shape:
  assumes blk: "joystickBlock c f g i j = Inr block"
    and nn: "0 \<le> sint (numAxes j)" "0 \<le> sint (numPovHats j)"
  shows "hd block = ucast (getJoystickSize j)
       \<and> int (length block)
         = 5 + sint (numAxes j) + (sint (numButtons j) + 7) div 8 + 2 * sint (numPovHats j)"
proof -
  from blk obtain ab bits hb where
    a: "axisLoop f j 0 = Inr ab" and nb: "\<not> sint (numButtons j) < 0"
    and b: "buttonLoop j 0 = Inr bits" and h: "hatLoop (g i) j 0 = Inr hb"
    and block: "block = [ucast (getJoystickSize j), word_of_int (JoystickHeader c),
                         ucast (numAxes j)] @ ab @ [ucast (numButtons j)]
                        @ bitsToBytes bits @ [ucast (numPovHats j)] @ hb"
    unfolding joystickBlock_def by (auto split: sum.splits if_splits)
  have la: "int (length ab) = sint (numAxes j)" using axisLoop_length[OF a] nn by simp
  have lb: "int (length bits) = sint (numButtons j)" using buttonLoop_length[OF b] nb by simp
  have lh: "int (length hb) = 2 * sint (numPovHats j)" using hatLoop_length[OF h] nn by simp
  have lp: "int (length (bitsToBytes bits)) = (sint (numButtons j) + 7) div 8"
    using lb by (simp add: bitsToBytes_length zdiv_int)
  show ?thesis using la lp lh by (simp add: block)
qed

lemma readRobotData_Inr:
  assumes len: "8 \<le> length data" and off: "offsetsWithin c (int (length data))"
  shows "readRobotData c data s =
     Inr ([voltageChanged (real_of_int (sint (data ! nat (RobotData_VoltageMajor c)))
                           + real_of_int (cdiv (sint (data ! nat (RobotData_VoltageMinor c))) 100))]
          @ (if p_robotCode s \<noteq> (sint (data ! nat (RobotData_RobotStatus c)) \<noteq> ProgramStatus_NoProgram c)
             then [codeChanged (sint (data ! nat (RobotData_RobotStatus c)) \<noteq> ProgramStatus_NoProgram c)] else [])
          @ (if p_controlMode s \<noteq> sint (data ! nat (RobotData_ControlEcho c))
             then [controlModeChanged (sint (data ! nat (RobotData_ControlEcho c)))] else [])
          @ (if \<not> m_justConnected s
             then downloadRobotInformation s else []),
          s\<lparr>p_robotCode := (sint (data ! nat (RobotData_RobotStatus c)) \<noteq> ProgramStatus_NoProgram c),
            m_justConnected := True\<rparr>)"
proof -
  from len have ne: "data \<noteq> []" by auto
  have dl: "\<And>x y. downloadRobotInformation (s\<lparr>p_robotCode := x, m_justConnected := y\<rparr>) = downloadRobotInformation s"
    "\<And>y. downloadRobotInformation (s\<lparr>m_justConnected := y\<rparr>) = downloadRobotInformation s"
    by (simp_all add: downloadRobotInformation_def robotAddress_def)
  show ?thesis
    using len ne off unfolding offsetsWithin_def readRobotData_def
    by (auto simp: at_index_def Let_def dl)
qed

lemma readRobotData_short: "\<not> 8 \<le> length data \<Longrightarrow> readRobotData c data s = Inr ([], s)"
  by (simp add: readRobotData_def)

lemma readRobotData_offsets:
  assumes "readRobotData c data s = Inr r" "8 \<le> length data"
  shows "offsetsWithin c (int (length data))"
  using assms unfolding readRobotData_def offsetsWithin_def at_index_def
  by (auto split: if_splits sum.splits)

lemma generateClientPacket_index:
  assumes "generateClientPacket c a g s = Inr (d, s')"
  shows "s' = s\<lparr>m_index := (if m_index s + 1 \<ge> 0xffff then 0 else m_index s + 1)\<rparr>
         \<and> take 2 d = [word_of_int (m_index s' div 256), word_of_int (m_index s')]"
  using assms unfolding generateClientPacket_def generatePingData_def
  by (auto simp: Let_def split: if_splits sum.splits)

lemma generateClientPacket_disabled:
  assumes "p_controlMode s \<noteq> DS_ControlTeleOp c"
  shows "\<exists>d. generateClientPacket c a g s
           = Inr (d, s\<lparr>m_index := (if m_index s + 1 \<ge> 0xffff then 0 else m_index s + 1)\<rparr>)"
  using assms unfolding generateClientPacket_def by (simp add: Let_def)

lemma clientPackets_reach:
  "p_controlMode s \<noteq> DS_ControlTeleOp c \<Longrightarrow> m_index s + int n < 0xffff
   \<Longrightarrow> \<exists>ds. clientPackets c a g n s = Inr (ds, s\<lparr>m_index := m_index s + int n\<rparr>)"
proof (induction n arbitrary: s)
  case 0
  then show ?case by simp
next
  case (Suc n)
  let ?s1 = "s\<lparr>m_index := m_index s + 1\<rparr>"
  from Suc.prems generateClientPacket_disabled[of s c a g]
  obtain d where d: "generateClientPacket c a g s = Inr (d, ?s1)" by auto
  have "p_controlMode ?s1 \<noteq> DS_ControlTeleOp c" "m_index ?s1 + int n < 0xffff"
    using Suc.prems by simp_all
  from Suc.IH[OF this] obtain ds where
    "clientPackets c a g n ?s1 = Inr (ds, ?s1\<lparr>m_index := m_index ?s1 + int n\<rparr>)" by auto
  with d show ?case by (simp add: add.assoc add.commute)
qed

lemma clientPackets_after_reset:
  assumes "DS_ControlDisabled c \<noteq> DS_ControlTeleOp c" "int n < 0xffff"
  shows "\<exists>ds. clientPackets c a g n (reset c s) = Inr (ds, (reset c s)\<lparr>m_index := int n\<rparr>)"
proof -
  have "p_controlMode (reset c s) \<noteq> DS_ControlTeleOp c" "m_index (reset c s) = 0"
    using assms(1) by (simp_all add: reset_def setControlMode_def)
  with clientPackets_reach[of "reset c s" c n a g] assms(2) show ?thesis by simp
qed

text \<open>
  Claim C3.  The claim: across consecutive client packets the ping index in bytes 0-1 goes up
  by exactly 1 modulo 0x10000, and at the top of its range runs 0xFFFE, 0xFFFF, 0.  The
  code resets the counter as soon as the incremented value reaches 0xFFFF
  (\<open>m_index >= 0xffff\<close>): after \<open>reset\<close> and 0xFFFE packets the index is 0xFFFE, and the
  next packet carries index 0 in its first two bytes, so the value 0xFFFF is never sent.
\<close>

theorem pingIndex_skips_0xFFFF:
  assumes "DS_ControlDisabled c \<noteq> DS_ControlTeleOp c"
  shows "\<exists>ds s' d.
           clientPackets c axisChar junk 0xFFFE (reset c s) = Inr (ds, s') \<and>
           m_index s' = 0xFFFE \<and>
           generateClientPacket c axisChar junk s' = Inr (d, s'\<lparr>m_index := 0\<rparr>) \<and>
           take 2 d = [0, 0]"
proof -
  from clientPackets_after_reset[where n="0xFFFE" and a=axisChar and g=junk and s=s, OF assms]
  obtain ds where ds: "clientPackets c axisChar junk 0xFFFE (reset c s)
      = Inr (ds, (reset c s)\<lparr>m_index := 0xFFFE\<rparr>)" by auto
  let ?s' = "(reset c s)\<lparr>m_index := 0xFFFE\<rparr>"
  have "p_controlMode ?s' \<noteq> DS_ControlTeleOp c"
    using assms by (simp add: reset_def setControlMode_def)
  from generateClientPacket_disabled[OF this, of axisChar junk]
  obtain d where d: "generateClientPacket c axisChar junk ?s' = Inr (d, ?s'\<lparr>m_index := 0\<rparr>)"
    by auto
  from generateClientPacket_index[OF d] have "take 2 d = [0, 0]" by simp
  with ds d show ?thesis by auto
qed

theorem pingIndex_skips_0xFFFF_witness:
  "DS_ControlDisabled exampleDecls \<noteq> DS_ControlTeleOp exampleDecls \<and>
   (\<exists>ds s' d.
      clientPackets exampleDecls word_of_int (\<lambda>i k. 0) 0xFFFE (reset exampleDecls exampleProtocol)
        = Inr (ds, s') \<and>
      m_index s' = 0xFFFE \<and>
      generateClientPacket exampleDecls word_of_int (\<lambda>i k. 0) s' = Inr (d, s'\<lparr>m_index := 0\<rparr>) \<and>
      take 2 d = [0, 0])"
proof -
  have h: "DS_ControlDisabled exampleDecls \<noteq> DS_ControlTeleOp exampleDecls"
    by (simp add: exampleDecls_def)
  show ?thesis
    using h pingIndex_skips_0xFFFF [OF h, of word_of_int "\<lambda>i k. 0" exampleProtocol] by simp
qed

text \<open>
  Claim C4.  The claim: an inbound packet of at least 8 bytes reports the voltage
  \<open>major + minor / 100\<close>, so the bytes 12 and 34 give 12.34.  The code divides the minor
  byte by 100 as an integer before the result becomes a \<open>double\<close>: with major byte 12 and
  minor byte 34 the only voltage emitted is 12.
\<close>

theorem voltage_ignores_centivolts:
  assumes "8 \<le> length data" "offsetsWithin c (int (length data))"
    and "data ! nat (RobotData_VoltageMajor c) = 12"
    and "data ! nat (RobotData_VoltageMinor c) = 34"
  shows "\<exists>evs s'. readRobotData c data s = Inr (voltageChanged 12 # evs, s')
                   \<and> (\<forall>v. voltageChanged v \<in> set (voltageChanged 12 # evs) \<longrightarrow> v \<noteq> 12.34)"
  using assms(3,4) unfolding readRobotData_Inr[OF assms(1,2)]
  by (auto simp: cdiv_def downloadRobotInformation_def)

theorem voltage_ignores_centivolts_witness:
  "8 \<le> length examplePacket \<and> offsetsWithin exampleDecls (int (length examplePacket))
   \<and> examplePacket ! nat (RobotData_VoltageMajor exampleDecls) = 12
   \<and> examplePacket ! nat (RobotData_VoltageMinor exampleDecls) = 34
   \<and> (\<exists>evs s'. readRobotData exampleDecls examplePacket exampleProtocol
                   = Inr (voltageChanged 12 # evs, s')
                 \<and> (\<forall>v. voltageChanged v \<in> set (voltageChanged 12 # evs) \<longrightarrow> v \<noteq> 12.34))"
proof -
  have h: "8 \<le> length examplePacket" "offsetsWithin exampleDecls (int (length examplePacket))"
    "examplePacket ! nat (RobotData_VoltageMajor exampleDecls) = 12"
    "examplePacket ! nat (RobotData_VoltageMinor exampleDecls) = 34"
    by (simp_all add: examplePacket_def exampleDecls_def offsetsWithin_def)
  show ?thesis
    using h voltage_ignores_centivolts [OF h, of exampleProtocol] by simp
qed

text \<open>
  Claim C9, as stated: for every joystick with non-negative \<open>numAxes\<close>, \<open>numButtons\<close> and
  \<open>numPovHats\<close>, \<open>getJoystickSize\<close> returns
  \<open>5 + numAxes + ceil (numButtons / 8) + 2 * numPovHats\<close>.  The sum is computed in
  \<open>int\<close>: for a joystick announcing 2147483647 axes it wraps around, and the function
  returns -2147483644.
\<close>

theorem getJoystickSize_overflows:
  "0 \<le> sint (numAxes hugeJoystick) \<and> 0 \<le> sint (numButtons hugeJoystick)
   \<and> 0 \<le> sint (numPovHats hugeJoystick)
   \<and> sint (getJoystickSize hugeJoystick) = - 2147483644
   \<and> sint (getJoystickSize hugeJoystick)
       \<noteq> 5 + sint (numAxes hugeJoystick) + \<lceil>real_of_int (sint (numButtons hugeJoystick)) / 8\<rceil>
           + 2 * sint (numPovHats hugeJoystick)"
  by (simp add: hugeJoystick_def getJoystickSize_def cdiv_def crem_def)

text \<open>
  Claim C9, amended.  For a joystick with non-negative \<open>numAxes\<close>, \<open>numButtons\<close> and
  \<open>numPovHats\<close> whose size \<open>5 + numAxes + ceil (numButtons / 8) + 2 * numPovHats\<close> does
  not exceed the largest \<open>int\<close>, \<open>getJoystickSize\<close> returns that size; its low eight bits
  are the leading size byte of the joystick block, the block is that many bytes long, and
  the packed button array takes \<open>(numButtons + 7) / 8\<close> bytes.  A joystick whose arrays
  hold at least the announced numbers of entries does produce a block.
\<close>

theorem getJoystickSize_formula:
  assumes "0 \<le> sint (numAxes j)" "0 \<le> sint (numButtons j)" "0 \<le> sint (numPovHats j)"
    and "5 + sint (numAxes j) + \<lceil>real_of_int (sint (numButtons j)) / 8\<rceil>
         + 2 * sint (numPovHats j) \<le> 2147483647"
  shows "sint (getJoystickSize j)
         = 5 + sint (numAxes j) + \<lceil>real_of_int (sint (numButtons j)) / 8\<rceil>
           + 2 * sint (numPovHats j)
       \<and> (\<forall>block. joystickBlock c axisChar junk i j = Inr block \<longrightarrow>
             hd block = ucast (getJoystickSize j)
             \<and> int (length block) = sint (getJoystickSize j))
       \<and> (\<forall>bits. buttonLoop j 0 = Inr bits \<longrightarrow>
             int (length (bitsToBytes bits)) = cdiv (sint (numButtons j) + 7) 8)
       \<and> (sint (numAxes j) \<le> int (length (axes j))
            \<and> sint (numButtons j) \<le> int (length (buttons j))
            \<and> sint (numPovHats j) \<le> int (length (povHats j))
          \<longrightarrow> (\<exists>block. joystickBlock c axisChar junk i j = Inr block))"
proof (intro conjI allI impI)
  have fits: "5 + sint (numAxes j) + (sint (numButtons j) + 7) div 8 + 2 * sint (numPovHats j)
              \<le> 2147483647"
    using assms(4) unfolding ceiling_eighth .
  note sz = getJoystickSize_nonneg[OF assms(1-3) fits]
  show "sint (getJoystickSize j)
         = 5 + sint (numAxes j) + \<lceil>real_of_int (sint (numButtons j)) / 8\<rceil>
           + 2 * sint (numPovHats j)"
    unfolding ceiling_eighth by (rule sz)
  fix block assume "joystickBlock c axisChar junk i j = Inr block"
  from joystickBlock_shape[OF this assms(1,3)] sz
  show "hd block = ucast (getJoystickSize j)" "int (length block) = sint (getJoystickSize j)"
    by simp_all
next
  fix bits assume "buttonLoop j 0 = Inr bits"
  from buttonLoop_length[OF this] assms(2) have "int (length bits) = sint (numButtons j)" by simp
  then show "int (length (bitsToBytes bits)) = cdiv (sint (numButtons j) + 7) 8"
    using assms(2) by (simp add: bitsToBytes_length zdiv_int cdiv_nonneg)
next
  assume wf: "sint (numAxes j) \<le> int (length (axes j))
            \<and> sint (numButtons j) \<le> int (length (buttons j))
            \<and> sint (numPovHats j) \<le> int (length (povHats j))"
  from wf axisLoop_total[of 0 j axisChar] obtain ab where "axisLoop axisChar j 0 = Inr ab" by auto
  moreover from wf buttonLoop_total[of 0 j] obtain bits where "buttonLoop j 0 = Inr bits" by auto
  moreover from wf hatLoop_total[of 0 j "junk i"] obtain hb where "hatLoop (junk i) j 0 = Inr hb" by auto
  ultimately show "\<exists>block. joystickBlock c axisChar junk i j = Inr block"
    using assms(2) by (simp add: joystickBlock_def)
qed

theorem getJoystickSize_formula_witness:
  "0 \<le> sint (numAxes exampleJoystick) \<and> 0 \<le> sint (numButtons exampleJoystick)
   \<and> 0 \<le> sint (numPovHats exampleJoystick)
   \<and> 5 + sint (numAxes exampleJoystick) + \<lceil>real_of_int (sint (numButtons exampleJoystick)) / 8\<rceil>
       + 2 * sint (numPovHats exampleJoystick) \<le> 2147483647
   \<and> sint (getJoystickSize exampleJoystick) = 7
   \<and> (\<exists>block. joystickBlock exampleDecls word_of_int (\<lambda>i k. 0) 0 exampleJoystick = Inr block
         \<and> hd block = 7 \<and> length block = 7)
   \<and> (\<exists>bits. buttonLoop exampleJoystick 0 = Inr bits \<and> length (bitsToBytes bits) = 1)"
proof -
  have n: "sint (numAxes exampleJoystick) = 1" "sint (numButtons exampleJoystick) = 3"
    "sint (numPovHats exampleJoystick) = 0"
    by (simp_all add: exampleJoystick_def)
  have c: "\<lceil>real_of_int (sint (numButtons exampleJoystick)) / 8\<rceil> = 1"
    unfolding ceiling_eighth by (simp add: n)
  have h: "0 \<le> sint (numAxes exampleJoystick)" "0 \<le> sint (numButtons exampleJoystick)"
    "0 \<le> sint (numPovHats exampleJoystick)"
    "5 + sint (numAxes exampleJoystick) + \<lceil>real_of_int (sint (numButtons exampleJoystick)) / 8\<rceil>
       + 2 * sint (numPovHats exampleJoystick) \<le> 2147483647"
    unfolding c by (simp_all add: n)
  have wf: "sint (numAxes exampleJoystick) \<le> int (length (axes exampleJoystick))
      \<and> sint (numButtons exampleJoystick) \<le> int (length (buttons exampleJoystick))
      \<and> sint (numPovHats exampleJoystick) \<le> int (length (povHats exampleJoystick))"
    by (simp add: n) (simp add: exampleJoystick_def)
  note t = getJoystickSize_formula [OF h, of exampleDecls word_of_int "\<lambda>i k. 0" 0]
  from t have "sint (getJoystickSize exampleJoystick)
         = 5 + sint (numAxes exampleJoystick)
           + \<lceil>real_of_int (sint (numButtons exampleJoystick)) / 8\<rceil>
           + 2 * sint (numPovHats exampleJoystick)" by (rule conjunct1)
  then have sz: "sint (getJoystickSize exampleJoystick) = 7" unfolding c by (simp add: n)
  have "getJoystickSize exampleJoystick = word_of_int (sint (getJoystickSize exampleJoystick))"
    by simp
  then have szw: "getJoystickSize exampleJoystick = 7" unfolding sz by simp
  from t wf obtain block where
    b: "joystickBlock exampleDecls word_of_int (\<lambda>i k. 0) 0 exampleJoystick = Inr block" by blast
  with t sz szw have b2: "hd block = 7 \<and> length block = 7" by auto
  from buttonLoop_total[of 0 exampleJoystick] wf obtain bits where
    bits: "buttonLoop exampleJoystick 0 = Inr bits" by auto
  with t have "int (length (bitsToBytes bits)) = cdiv (sint (numButtons exampleJoystick) + 7) 8"
    by blast
  then have "length (bitsToBytes bits) = 1" by (simp add: n cdiv_def)
  with h sz b b2 bits show ?thesis by blast
qed

lemma generateClientPacket_frame:
  "generateClientPacket c a g (s\<lparr>p_robotCode := x, m_justConnected := y\<rparr>)
   = map_sum id (\<lambda>(d, t). (d, t\<lparr>p_robotCode := x, m_justConnected := y\<rparr>))
       (generateClientPacket c a g s)"
  unfolding generateClientPacket_def generateJoystickData_def
  by (simp add: Let_def split: sum.splits)

lemma clientPackets_frame:
  "clientPackets c a g n (s\<lparr>p_robotCode := x, m_justConnected := y\<rparr>)
   = map_sum id (\<lambda>(ds, t). (ds, t\<lparr>p_robotCode := x, m_justConnected := y\<rparr>))
       (clientPackets c a g n s)"
proof (induction n arbitrary: s)
  case 0
  show ?case by simp
next
  case (Suc n)
  show ?case
  proof (cases "generateClientPacket c a g s")
    case (Inl e)
    then show ?thesis by (simp add: generateClientPacket_frame)
  next
    case (Inr r)
    obtain d t where r: "r = (d, t)" by (cases r)
    show ?thesis
      using Inr r Suc.IH[of t]
      by (cases "clientPackets c a g n t") (auto simp: generateClientPacket_frame)
  qed
qed

lemma readRobotData_changes:
  assumes "readRobotData c data s = Inr (evs, s')"
  shows "s' = s\<lparr>p_robotCode := p_robotCode s', m_justConnected := m_justConnected s'\<rparr>"
proof (cases "8 \<le> length data")
  case True
  from readRobotData_Inr[OF True readRobotData_offsets[OF assms True], of s] assms
  show ?thesis by auto
next
  case False
  with assms show ?thesis by (simp add: readRobotData_short)
qed

text \<open>
  Claim C10.  For every input byte array \<open>readRobotData\<close> leaves the outbound encoder
  alone: the ping index \<open>m_index\<close>, the pending status \<open>m_status\<close> and the cached
  control mode \<open>p_controlMode\<close> are the same after the call as before, the only fields
  that may differ are \<open>p_robotCode\<close> and the \<open>m_justConnected\<close> latch, and any run of
  client packets generated afterwards has the same content as it would have had without the
  call.  With the four offsets inside the 8 guaranteed bytes the call always returns.
\<close>

theorem readRobotData_frame:
  "(offsetsWithin c 8 \<longrightarrow> (\<exists>evs s'. readRobotData c data s = Inr (evs, s')))
   \<and> (\<forall>evs s'. readRobotData c data s = Inr (evs, s') \<longrightarrow>
         m_index s' = m_index s \<and> m_status s' = m_status s
         \<and> p_controlMode s' = p_controlMode s
         \<and> s' = s\<lparr>p_robotCode := p_robotCode s', m_justConnected := m_justConnected s'\<rparr>
         \<and> (\<forall>axisChar junk n.
               map_sum id fst (clientPackets c axisChar junk n s')
               = map_sum id fst (clientPackets c axisChar junk n s)))"
proof (intro conjI allI impI)
  assume off: "offsetsWithin c 8"
  show "\<exists>evs s'. readRobotData c data s = Inr (evs, s')"
  proof (cases "8 \<le> length data")
    case True
    then have "offsetsWithin c (int (length data))"
      using off by (auto simp: offsetsWithin_def)
    from readRobotData_Inr[OF True this] show ?thesis by blast
  next
    case False
    then show ?thesis by (simp add: readRobotData_short)
  qed
next
  fix evs s' assume r: "readRobotData c data s = Inr (evs, s')"
  note ch = readRobotData_changes[OF r]
  show "m_index s' = m_index s" by (subst ch) simp
  show "m_status s' = m_status s" by (subst ch) simp
  show "p_controlMode s' = p_controlMode s" by (subst ch) simp
  show "s' = s\<lparr>p_robotCode := p_robotCode s', m_justConnected := m_justConnected s'\<rparr>"
    by (rule ch)
  fix axisChar :: "'a \<Rightarrow> byte" and junk n
  show "map_sum id fst (clientPackets c axisChar junk n s')
        = map_sum id fst (clientPackets c axisChar junk n s)"
    by (subst ch, subst clientPackets_frame)
       (cases "clientPackets c axisChar junk n s", auto)
qed

theorem readRobotData_frame_witness:
  "offsetsWithin exampleDecls 8
   \<and> (\<exists>evs s'. readRobotData exampleDecls examplePacket exampleProtocol = Inr (evs, s')
        \<and> m_index s' = 0 \<and> m_status s' = 16 \<and> p_controlMode s' = 2
        \<and> map_sum id fst (clientPackets exampleDecls word_of_int (\<lambda>i k. 0) 2 s')
          = map_sum id fst (clientPackets exampleDecls word_of_int (\<lambda>i k. 0) 2 exampleProtocol))"
proof -
  have h: "offsetsWithin exampleDecls 8"
    by (simp add: offsetsWithin_def exampleDecls_def)
  note t = readRobotData_frame [of exampleDecls examplePacket exampleProtocol]
  from t h obtain evs s' where
    r: "readRobotData exampleDecls examplePacket exampleProtocol = Inr (evs, s')" by blast
  with t have "m_index s' = m_index exampleProtocol \<and> m_status s' = m_status exampleProtocol
      \<and> p_controlMode s' = p_controlMode exampleProtocol
      \<and> map_sum id fst (clientPackets exampleDecls word_of_int (\<lambda>i k. 0) 2 s')
          = map_sum id fst (clientPackets exampleDecls word_of_int (\<lambda>i k. 0) 2 exampleProtocol)"
    by blast
  with h r show ?thesis by (auto simp: exampleProtocol_def)
qed

text \<open>
  Claim C8.  The claim: \<open>codeChanged\<close> and \<open>controlModeChanged\<close> are edge-triggered, and
  two consecutive packets with identical status and control-echo fields cause at most one
  emission of each signal.  The code-presence path stores the decoded flag in its cache
  before it emits; the control-mode path compares the echo with \<open>p_controlMode\<close> and emits,
  but never stores the echo.  With the cached control mode 2 and two identical packets
  echoing mode 1, \<open>controlModeChanged\<close> is emitted twice.
\<close>

theorem controlModeChanged_repeats:
  "count_list (signalsOf (readPackets exampleDecls [examplePacket, examplePacket] exampleProtocol))
     (controlModeChanged 1) = 2"
proof -
  have len: "8 \<le> length examplePacket" by (simp add: examplePacket_def)
  have off: "offsetsWithin exampleDecls (int (length examplePacket))"
    by (simp add: offsetsWithin_def exampleDecls_def examplePacket_def)
  have v: "examplePacket ! nat (RobotData_ControlEcho exampleDecls) = 1"
    "examplePacket ! nat (RobotData_RobotStatus exampleDecls) = 0"
    "ProgramStatus_NoProgram exampleDecls = 0"
    by (simp_all add: exampleDecls_def examplePacket_def)
  show ?thesis
    by (simp add: readRobotData_Inr[OF len off] v signalsOf_def exampleProtocol_def
        downloadRobotInformation_def)
qed

section \<open>Properties of the socket manager\<close>

lemma socketCount_range: "1 \<le> socketCount s \<and> socketCount s \<le> 128"
  by (simp add: socketCount_def Let_def)

lemma refreshAddressList_cursor:
  assumes "m_robotIp s = []" "m_robotIpList s \<noteq> []" "refreshAddressList s = Inr (es, s')"
  shows "m_iterator s' = (if int (length (m_robotIpList s)) > m_iterator s + socketCount s
                          then m_iterator s + socketCount s else 0)"
    and "m_robotIpList s' = m_robotIpList s"
  using assms by (auto simp: refreshAddressList_def Let_def split: if_splits sum.splits)

lemma refreshAddressList_cursor_range:
  assumes "m_robotIp s = []" "m_robotIpList s \<noteq> []" "refreshAddressList s = Inr (es, s')"
    and "0 \<le> m_iterator s"
  shows "0 \<le> m_iterator s' \<and> m_iterator s' < int (length (m_robotIpList s'))"
proof -
  from socketCount_range[of s] have "1 \<le> socketCount s" by simp
  with refreshAddressList_cursor[OF assms(1-3)] assms(2,4) show ?thesis
    by (auto split: if_splits)
qed

lemma rebindLoop_window:
  "rebindLoop s psc i = Inr es \<Longrightarrow> Bind (robotInputSockets k) ip port \<in> set es
   \<Longrightarrow> i \<le> k \<and> m_iterator s + k < psc"
proof (induction s psc i arbitrary: es rule: rebindLoop.induct)
  case (1 s psc i)
  show ?case
  proof (cases "i < psc")
    case False
    with "1.prems" show ?thesis by (subst (asm) rebindLoop.simps) simp
  next
    case True
    show ?thesis
    proof (cases "psc > m_iterator s + i")
      case False
      with True "1.prems"(1) have r: "rebindLoop s psc (i + 1) = Inr es"
        by (subst (asm) rebindLoop.simps) (simp add: Let_def)
      from "1.IH"(2)[OF True refl refl _ r "1.prems"(2)] True False show ?thesis
        by (simp add: Let_def)
    next
      case addr: True
      with True "1.prems"(1) obtain receiver a rest where
        rc: "at_index (m_robotInputSockets s) i = Inr receiver"
        and a: "at_index (m_robotIpList s) (m_iterator s + i) = Inr a"
        and r: "rebindLoop s psc (i + 1) = Inr rest"
        and es: "es = DisconnectFromHost (robotInputSockets i)
                      # Bind (robotInputSockets i) a (m_robotInput s) # rest"
        by (subst (asm) rebindLoop.simps) (auto simp: Let_def split: sum.splits)
      from "1.prems"(2) es consider "k = i" | "Bind (robotInputSockets k) ip port \<in> set rest"
        by auto
      then show ?thesis
      proof cases
        case 1
        with addr show ?thesis by simp
      next
        case 2
        from "1.IH"(1)[OF True refl refl _ rc a r 2] True addr show ?thesis
          by (simp add: Let_def)
      qed
    qed
  qed
qed

lemma pairLoop_ipList: "m_robotIpList (snd (pairLoop n i (es, t))) = m_robotIpList t"
  by (induction n arbitrary: i es t) simp_all

lemma sweep_length: "length (sweep numbers) = 254"
  by (simp add: sweep_def Let_def)

lemma entryLoop_before_loopback:
  "\<forall>a\<in>set entries. toString a \<noteq> ''127.0.0.1'' \<and> \<not> isNull a \<Longrightarrow>
   entryLoop (entries @ rest) ipList
   = entryLoop rest
       (ipList @ concat (map (\<lambda>a. if length (split CHR ''.'' (toString a)) = 4
                                    then sweep (split CHR ''.'' (toString a)) else []) entries))"
  by (induction entries arbitrary: ipList) (simp_all add: Let_def)

lemma entryLoop_stops:
  "toString a = ''127.0.0.1'' \<or> isNull a \<Longrightarrow> entryLoop (a # rest) ipList = ipList"
  by auto

lemma socketCount_custom: "0 < m_socketCount s \<Longrightarrow> m_socketCount s \<le> 128 \<Longrightarrow> socketCount s = m_socketCount s"
  by (simp add: socketCount_def)

lemma scanState_reached:
  "\<exists>es. run dp (scanCalls dp) (Sockets_new dp) = Inr (es, scanState dp)"
  by (simp add: scanCalls_def Sockets_new_def scanState_def setRobotInputPort_def
      setRobotOutputPort_def setCustomSocketCount_def setAddressList_def
      generateLocalNetworkAddresses_def generateSocketPairs_def clearSocketLists_def
      socketCount_def cdiv_def numeral_2_eq_2)

lemma lockedState_reached:
  "\<exists>es. run dp (scanCalls dp @ [SetRobotAddress ''10.0.0.9'']) (Sockets_new dp) = Inr (es, lockedState dp)"
  by (simp add: scanCalls_def Sockets_new_def scanState_def setRobotInputPort_def
      setRobotOutputPort_def setCustomSocketCount_def setAddressList_def lockedState_def
      generateLocalNetworkAddresses_def generateSocketPairs_def clearSocketLists_def
      socketCount_def cdiv_def numeral_2_eq_2 setRobotAddress_def)


lemma refresh_scanState:
  "refreshAddressList (scanState dp) = Inr ([], (scanState dp)\<lparr>m_iterator := 2\<rparr>)"
  by (simp add: refreshAddressList_def scanState_def socketCount_def rebindLoop.simps Let_def)

lemma refresh_scanState2:
  "refreshAddressList ((scanState dp)\<lparr>m_iterator := 2\<rparr>)
   = Inr ([DisconnectFromHost (robotInputSockets 0),
           Bind (robotInputSockets 0) ''10.0.0.1'' (dp + 1),
           DisconnectFromHost (robotInputSockets 1),
           Bind (robotInputSockets 1) ''10.0.0.2'' (dp + 1)], scanState dp)"
  by (simp add: refreshAddressList_def scanState_def socketCount_def rebindLoop.simps Let_def
      at_index_def)

text \<open>
  Claim C1.  The claim: with \<open>robotIp\<close> empty and a non-empty address list, a refresh
  moves the cursor by \<open>socketCount\<close> or resets it to 0, and then re-binds every pool slot
  \<open>i\<close> with \<open>iter + i < |AddressList|\<close> to \<open>AddressList [iter + i]\<close>; with three addresses,
  socket count 2 and the cursor advanced to 2, slot 0 is re-bound to the third address.
  The cursor rule holds (\<open>refreshAddressList_cursor\<close>), but the loop tests
  \<open>psc > m_iterator + i\<close>, the pool size, where the address count is meant
  (\<open>rebindLoop_window\<close>).  On the scanning manager, reached from the constructor through
  the setters, the refresh advances the cursor to 2 and binds nothing: slot 0 keeps its old
  binding although \<open>2 + 0 < 3\<close>.
\<close>

theorem refreshAddressList_skips_slot:
  "(\<exists>es. run dp (scanCalls dp) (Sockets_new dp) = Inr (es, scanState dp))
   \<and> m_robotIp (scanState dp) = [] \<and> m_iterator (scanState dp) = 0
   \<and> length (m_robotIpList (scanState dp)) = 3 \<and> socketCount (scanState dp) = 2
   \<and> length (m_robotInputSockets (scanState dp)) = 2
   \<and> refreshAddressList (scanState dp) = Inr ([], (scanState dp)\<lparr>m_iterator := 2\<rparr>)"
  using scanState_reached[of dp] refresh_scanState[of dp]
  by (simp add: scanState_def socketCount_def)

lemma boundAddresses_append: "boundAddresses (xs @ ys) = boundAddresses xs @ boundAddresses ys"
  by (induction xs rule: boundAddresses.induct) simp_all

lemma refreshes_never_bind_third:
  "(\<exists>es s'. run dp (replicate n RefreshAddressList) (scanState dp) = Inr (es, s')
       \<and> ''127.0.0.1'' \<notin> set (boundAddresses es))
   \<and> (\<exists>es s'. run dp (replicate n RefreshAddressList) ((scanState dp)\<lparr>m_iterator := 2\<rparr>) = Inr (es, s')
       \<and> ''127.0.0.1'' \<notin> set (boundAddresses es))"
proof (induction n)
  case 0
  show ?case by simp
next
  case (Suc n)
  from Suc obtain es1 s1 where
    1: "run dp (replicate n RefreshAddressList) (scanState dp) = Inr (es1, s1)"
       "''127.0.0.1'' \<notin> set (boundAddresses es1)" by blast
  from Suc obtain es2 s2 where
    2: "run dp (replicate n RefreshAddressList) ((scanState dp)\<lparr>m_iterator := 2\<rparr>) = Inr (es2, s2)"
       "''127.0.0.1'' \<notin> set (boundAddresses es2)" by blast
  have a: "\<exists>es s'. run dp (replicate (Suc n) RefreshAddressList) (scanState dp) = Inr (es, s')
       \<and> ''127.0.0.1'' \<notin> set (boundAddresses es)"
    using 2 by (simp add: refresh_scanState)
  have b: "\<exists>es s'. run dp (replicate (Suc n) RefreshAddressList) ((scanState dp)\<lparr>m_iterator := 2\<rparr>) = Inr (es, s')
       \<and> ''127.0.0.1'' \<notin> set (boundAddresses es)"
    using 1 by (simp add: refresh_scanState2)
  from a b show ?case by blast
qed

text \<open>
  Claim C5.  The claim: while \<open>robotIp\<close> is empty the cursor stays in
  \<open>[0, |AddressList|)\<close> and every address is bound to some pool receiver within
  \<open>ceil (|AddressList| / socketCount)\<close> refreshes.  The cursor range holds
  (\<open>refreshAddressList_cursor_range\<close>).  The coverage does not: on the scanning manager
  (three addresses, socket count 2, so two refreshes should do) no number \<open>n\<close> of refreshes
  ever binds a receiver to the third address.
\<close>

theorem refreshes_leave_address_unbound:
  "''127.0.0.1'' \<in> set (m_robotIpList (scanState dp))
   \<and> (\<exists>es s'. run dp (replicate n RefreshAddressList) (scanState dp) = Inr (es, s')
         \<and> ''127.0.0.1'' \<notin> set (boundAddresses es))"
  using refreshes_never_bind_third[of dp n] by (simp add: scanState_def)

text \<open>
  Claim C2.  The claim: after \<open>setRobotAddress (ip)\<close> with a non-empty \<open>ip\<close>, every
  \<open>sendToRobot\<close> with the output port enabled transmits exactly once, to \<open>ip\<close>, and never
  fans out.  That is what the code does when the single robot sender exists
  (\<open>sendToRobot_locked_with_sender\<close>).  The sender is created only by
  \<open>setRobotSocketType\<close> with a type other than the current one, so a manager that stays on
  the default UDP type has none: after \<open>setRobotAddress\<close> with \<open>10.0.0.9\<close> its
  \<open>sendToRobot\<close> writes to \<open>10.0.0.1\<close> and \<open>10.0.0.2\<close> through the pool and never to
  \<open>10.0.0.9\<close>.
\<close>

theorem sendToRobot_fans_out_when_locked:
  "(\<exists>es. run dp (scanCalls dp @ [SetRobotAddress ''10.0.0.9'']) (Sockets_new dp)
            = Inr (es, lockedState dp))
   \<and> m_robotIp (lockedState dp) = ''10.0.0.9'' \<and> m_robotOutput (lockedState dp) \<noteq> dp
   \<and> sendToRobot dp data (lockedState dp)
       = Inr [WriteDatagram (robotSenderList 0) data ''10.0.0.1'' (dp + 2),
              WriteDatagram (robotSenderList 1) data ''10.0.0.2'' (dp + 2)]"
  using lockedState_reached[of dp]
  by (simp add: lockedState_def scanState_def sendToRobot_def fanOutLoop.simps socketCount_def
      at_index_def)

lemma sendToRobot_locked_with_sender:
  assumes "m_robotSender s \<noteq> None" "ip \<noteq> []" "m_robotOutput s \<noteq> dp"
  shows "sendToRobot dp data (snd (setRobotAddress ip s))
         = Inr [WriteDatagram robotSender data ip (m_robotOutput s)]"
  using assms by (auto simp: sendToRobot_def setRobotAddress_def)

text \<open>
  Claim C7, as stated: for every interface that is up and running, every address entry that
  is neither null nor \<open>127.0.0.1\<close> and splits into four parts contributes its 254
  addresses.  The code leaves the loop over the entries of an interface at the first entry
  that is \<open>127.0.0.1\<close> or null.  An interface that is up and running and lists
  \<open>127.0.0.1\<close> and then \<open>10.0.0.5\<close> contributes nothing: the address list is just the
  final \<open>127.0.0.1\<close>.
\<close>

theorem sweep_stops_at_loopback_entry:
  "IsUp loopbackFirst \<and> IsRunning loopbackFirst
   \<and> addressEntries loopbackFirst = [Address ''127.0.0.1'', Address ''10.0.0.5'']
   \<and> \<not> isNull (Address ''10.0.0.5'') \<and> toString (Address ''10.0.0.5'') \<noteq> ''127.0.0.1''
   \<and> length (split CHR ''.'' (toString (Address ''10.0.0.5''))) = 4
   \<and> m_robotIpList (snd (setAddressList [loopbackFirst] [] (Sockets_new 0))) = [''127.0.0.1'']"
  by (simp add: setAddressList_def generateLocalNetworkAddresses_def generateSocketPairs_def
      pairLoop_ipList clearSocketLists_def loopbackFirst_def Let_def)

lemma specEntryAddresses_sweep:
  "specEntryAddresses a
   = (if length (split CHR ''.'' (toString a)) = 4
      then sweep (split CHR ''.'' (toString a)) else [])"
proof (cases "length (split CHR ''.'' (toString a)) = 4")
  case True
  then obtain A B C D where "split CHR ''.'' (toString a) = [A, B, C, D]"
    by (auto simp: length_Suc_conv numeral_eq_Suc)
  then show ?thesis by (simp add: specEntryAddresses_def sweep_def)
next
  case False
  then show ?thesis
    by (auto simp: specEntryAddresses_def split: list.splits)
qed

lemma entryLoop_spec:
  "entryLoop entries ipList
   = ipList @ concat (map specEntryAddresses
       (takeWhile (\<lambda>a. toString a \<noteq> ''127.0.0.1'' \<and> \<not> isNull a) entries))"
  by (induction entries arbitrary: ipList) (simp_all add: Let_def specEntryAddresses_sweep)

lemma interfaceLoop_spec:
  "interfaceLoop interfaces ipList = ipList @ concat (map specInterfaceAddresses interfaces)"
  by (induction interfaces arbitrary: ipList)
     (simp_all add: specInterfaceAddresses_def specLeadingEntries_def entryLoop_spec)

text \<open>
  Claim C7, amended.  The local-network sweep appends, for every host interface whose flags
  indicate up and running and for every address entry of that interface that comes before
  the interface's first entry that is null or \<open>127.0.0.1\<close> and that splits on \<open>.\<close> into
  four parts, the 254 addresses \<open>A.B.C.1\<close> to \<open>A.B.C.254\<close> to the address list, in the
  order of the interfaces and entries, and after all interfaces are scanned appends
  \<open>127.0.0.1\<close>.
\<close>

theorem sweep_up_to_loopback_entry:
  "m_robotIpList (snd (setAddressList allInterfaces list s))
   = list @ concat (map specInterfaceAddresses allInterfaces) @ [''127.0.0.1'']"
  by (simp add: setAddressList_def generateLocalNetworkAddresses_def generateSocketPairs_def
      pairLoop_ipList clearSocketLists_def Let_def interfaceLoop_spec)

theorem sweep_up_to_loopback_entry_witness:
  "length (m_robotIpList (snd (setAddressList [lanFirst] [''10.0.0.77''] (Sockets_new 0)))) = 256
   \<and> take 3 (m_robotIpList (snd (setAddressList [lanFirst] [''10.0.0.77''] (Sockets_new 0))))
       = [''10.0.0.77'', ''10.0.0.1'', ''10.0.0.2'']
   \<and> drop 254 (m_robotIpList (snd (setAddressList [lanFirst] [''10.0.0.77''] (Sockets_new 0))))
       = [''10.0.0.254'', ''127.0.0.1'']"
proof -
  have sp: "split CHR ''.'' ''10.0.0.5'' = [''10'', ''0'', ''0'', ''5'']" by simp
  have e: "specInterfaceAddresses lanFirst
           = map (\<lambda>i. ''10.0.0.'' @ QString_number i) [1..254]"
    by (simp add: specInterfaceAddresses_def specLeadingEntries_def lanFirst_def
        specEntryAddresses_def sp)
  have u: "[1..254] = 1 # 2 # [3..253] @ [254::int]"
    by (simp add: upto_rec1 upto_rec2)
  have d: "QString_number 1 = ''1''" "QString_number 2 = ''2''" "QString_number 254 = ''254''"
    by (simp_all add: QString_number_def decimal.simps)
  have l: "length [3..253::int] = 251" by simp
  show ?thesis
    unfolding sweep_up_to_loopback_entry [of "[lanFirst]" "[''10.0.0.77'']" "Sockets_new 0"]
    by (simp add: e u d l)
qed

lemma pairLoop_robotIp: "m_robotIp (snd (pairLoop n i (es, t))) = m_robotIp t"
  by (induction n arbitrary: i es t) simp_all

lemma generateSocketPairs_robotIp: "m_robotIp (snd (generateSocketPairs s)) = m_robotIp s"
  by (simp add: generateSocketPairs_def Let_def pairLoop_robotIp clearSocketLists_def)

lemma refreshAddressList_robotIp:
  "refreshAddressList s = Inr (es, s') \<Longrightarrow> m_robotIp s' = m_robotIp s"
  by (auto simp: refreshAddressList_def Let_def split: if_splits sum.splits)

lemma exec_keeps_robotIp:
  assumes "exec dp c s = Inr (es, s')" "\<not> isSetRobotAddress c" "m_robotIp s \<noteq> []"
  shows "m_robotIp s' = m_robotIp s"
proof (cases c)
  case RefreshAddressList
  with assms show ?thesis by (simp add: refreshAddressList_robotIp)
next
  case (SetAddressList ifs list)
  with assms(1) have "s' = snd (generateSocketPairs
      (s\<lparr>m_robotIpList := interfaceLoop ifs list @ [''127.0.0.1'']\<rparr>))"
    by (auto simp: setAddressList_def generateLocalNetworkAddresses_def)
  then show ?thesis by (simp add: generateSocketPairs_robotIp)
next
  case (SetCustomSocketCount n)
  with assms(1) have "s' = s \<or> s' = snd (generateSocketPairs (s\<lparr>m_socketCount := n\<rparr>))"
    by (auto simp: setCustomSocketCount_def split: if_splits)
  then show ?thesis by (auto simp: generateSocketPairs_robotIp)
next
  case (SendToRobot d)
  with assms show ?thesis by (auto split: sum.splits)
next
  case (ReadRobotSocket peer d)
  with assms show ?thesis by (auto simp: readRobotSocket_def split: if_splits)
qed (use assms in \<open>auto simp: setRadioAddress_def setFMSInputPort_def setFMSOutputPort_def
      setRadioInputPort_def setRobotInputPort_def setRadioOutputPort_def setRobotOutputPort_def
      setFMSSocketType_def setRadioSocketType_def setRobotSocketType_def split: if_splits\<close>)

lemma run_keeps_robotIp:
  "run dp calls s = Inr (es, s') \<Longrightarrow> \<forall>c\<in>set calls. \<not> isSetRobotAddress c
   \<Longrightarrow> m_robotIp s \<noteq> [] \<Longrightarrow> m_robotIp s' = m_robotIp s"
proof (induction calls arbitrary: s es)
  case Nil
  then show ?case by simp
next
  case (Cons c calls)
  from Cons.prems(1) obtain e1 s1 e2 where
    1: "exec dp c s = Inr (e1, s1)" and 2: "run dp calls s1 = Inr (e2, s')"
    by (auto split: sum.splits prod.splits)
  from exec_keeps_robotIp[OF 1] Cons.prems have ip: "m_robotIp s1 = m_robotIp s" by simp
  with Cons.IH[OF 2] Cons.prems show ?case by simp
qed

text \<open>
  Claim C6, as stated: once the first non-empty robot datagram has been read while
  \<open>robotIp\<close> was empty, \<open>robotIp\<close> is the source address of that datagram and does not
  change without an explicit setter call.  The handler tells "no address yet" by the empty
  string: if the peer address of the first datagram is the empty string, \<open>robotIp\<close> stays
  empty, and the next datagram, from \<open>10.0.0.1\<close>, changes it with no setter called.
\<close>

theorem robotIp_changes_after_empty_peer:
  "m_robotIp (scanState 0) = []
   \<and> m_robotIp (snd (readRobotSocket [] [1] (scanState 0))) = []
   \<and> m_robotIp (snd (readRobotSocket ''10.0.0.1'' [2] (snd (readRobotSocket [] [1] (scanState 0)))))
       = ''10.0.0.1''"
  by (simp add: readRobotSocket_def setRobotAddress_def scanState_def)

text \<open>
  Claim C6, amended.  An empty read changes nothing.  When the first non-empty robot
  datagram is read while \<open>robotIp\<close> is empty, the handler sets \<open>robotIp\<close> to the source
  address of that datagram and emits \<open>robotPacketReceived\<close> with the data.  If that source
  address is not the empty string, then afterwards no sequence of calls on the manager that
  contains no \<open>setRobotAddress\<close> changes \<open>robotIp\<close>: not a send, a refresh, a later read
  from another peer, nor any other setter.
\<close>

theorem robotIp_acquired:
  assumes "m_robotIp s = []" "data \<noteq> []"
  shows "readRobotSocket peer [] s = ([], s)
     \<and> (\<exists>es s'. readRobotSocket peer data s = (es, s')
           \<and> m_robotIp s' = peer
           \<and> last es = robotPacketReceived data
           \<and> (peer \<noteq> [] \<longrightarrow>
                (\<forall>calls es' s''. (\<forall>c\<in>set calls. \<not> isSetRobotAddress c)
                     \<and> run dp calls s' = Inr (es', s'') \<longrightarrow> m_robotIp s'' = peer)))"
proof -
  obtain es s' where r: "readRobotSocket peer data s = (es, s')" by (cases "readRobotSocket peer data s")
  from r assms have ip: "m_robotIp s' = peer" and l: "last es = robotPacketReceived data"
    by (auto simp: readRobotSocket_def setRobotAddress_def split: if_splits)
  have st: "m_robotIp s'' = peer"
    if "peer \<noteq> []" "\<forall>c\<in>set calls. \<not> isSetRobotAddress c" "run dp calls s' = Inr (es', s'')"
    for calls es' s''
    using run_keeps_robotIp[OF that(3) that(2)] that(1) ip by simp
  have "readRobotSocket peer [] s = ([], s)" by (simp add: readRobotSocket_def)
  with r ip l st show ?thesis by blast
qed

theorem robotIp_acquired_witness:
  "m_robotIp (scanState 0) = [] \<and> [1::byte] \<noteq> []
   \<and> (\<exists>es s'. readRobotSocket ''10.0.0.2'' [1] (scanState 0) = (es, s')
        \<and> m_robotIp s' = ''10.0.0.2'' \<and> last es = robotPacketReceived [1]
        \<and> ''10.0.0.2'' \<noteq> []
        \<and> (\<forall>c\<in>set [SendToRobot [7], RefreshAddressList, ReadRobotSocket ''10.0.0.1'' [2]].
              \<not> isSetRobotAddress c)
        \<and> (\<exists>es' s''. run 0 [SendToRobot [7], RefreshAddressList, ReadRobotSocket ''10.0.0.1'' [2]] s'
                         = Inr (es', s'')
              \<and> m_robotIp s'' = ''10.0.0.2''))"
proof -
  have h: "m_robotIp (scanState 0) = []" "[1::byte] \<noteq> []"
    by (simp_all add: scanState_def)
  let ?calls = "[SendToRobot [7], RefreshAddressList, ReadRobotSocket ''10.0.0.1'' [2]]"
  have n: "\<forall>c\<in>set ?calls. \<not> isSetRobotAddress c" by simp
  from robotIp_acquired [OF h, of "''10.0.0.2''" 0] obtain es s' where
    r: "readRobotSocket ''10.0.0.2'' [1] (scanState 0) = (es, s')"
    and ip: "m_robotIp s' = ''10.0.0.2''" and l: "last es = robotPacketReceived [1]"
    and st: "\<forall>calls es' s''. (\<forall>c\<in>set calls. \<not> isSetRobotAddress c)
                     \<and> run 0 calls s' = Inr (es', s'') \<longrightarrow> m_robotIp s'' = ''10.0.0.2''"
    by auto
  from r have s': "s' = (scanState 0)\<lparr>m_robotIp := ''10.0.0.2''\<rparr>"
    by (auto simp: readRobotSocket_def setRobotAddress_def scanState_def)
  have "\<exists>es' s''. run 0 ?calls s' = Inr (es', s'')"
    unfolding s'
    by (simp add: scanState_def sendToRobot_def fanOutLoop.simps socketCount_def at_index_def
        refreshAddressList_def readRobotSocket_def)
  then obtain es' s'' where run: "run 0 ?calls s' = Inr (es', s'')" by blast
  with st n have "m_robotIp s'' = ''10.0.0.2''" by blast
  with h r ip l n run show ?thesis by auto
qed

end
